theory Spec2Isabelle
  imports Main "HOL-Library.Char_ord" "HOL-Library.List_Lexorder" "HOL-Library.Multiset"
begin

section \<open>Paths and the process environment\<close>

text \<open>
  Paths and file contents are Python strings. The process environment supplies what the
  two modules read from the interpreter: the expansion of \<^verbatim>\<open>~\<close>, whether the program
  runs frozen, the path of the executable, and the absolute path of the module file
  \<^verbatim>\<open>update_utils.py\<close> (the value of \<^verbatim>\<open>os.path.abspath(__file__)\<close>).
\<close>

type_synonym path = string
type_synonym bytes = string

record env =
  home :: path
  frozen :: bool
  executable :: path
  module_file :: path

text \<open>
  \<^verbatim>\<open>posixpath.join(a, b)\<close> for one further component: an absolute \<open>b\<close> replaces the
  path, otherwise \<open>b\<close> is appended, with a separator unless the path is empty or already
  ends with one.
\<close>

definition join :: "path \<Rightarrow> path \<Rightarrow> path" where
  "join a b =
     (if b \<noteq> [] \<and> hd b = CHR ''/'' then b
      else if a = [] \<or> last a = CHR ''/'' then a @ b
      else a @ ''/'' @ b)"

definition join3 :: "path \<Rightarrow> path \<Rightarrow> path \<Rightarrow> path" where
  "join3 a b c = join (join a b) c"

text \<open>
  \<^verbatim>\<open>posixpath.dirname(p)\<close>: the part up to and including the last separator, with
  trailing separators removed unless it consists of separators only.
\<close>

definition rstrip_sep :: "path \<Rightarrow> path" where
  "rstrip_sep p = rev (dropWhile (\<lambda>c. c = CHR ''/'') (rev p))"

definition dirname :: "path \<Rightarrow> path" where
  "dirname p =
     (let head = rev (dropWhile (\<lambda>c. c \<noteq> CHR ''/'') (rev p))
      in if head \<noteq> [] \<and> head \<noteq> replicate (length head) (CHR ''/'')
         then rstrip_sep head else head)"

section \<open>Module constants\<close>

text \<open>\<^verbatim>\<open>main.py\<close>: the version shown by the user interface and stored in the settings table.\<close>

definition APP_VERSION :: string where
  "APP_VERSION = ''1.0.1''"

text \<open>\<^verbatim>\<open>update_utils.py\<close>: the version the updater compares release tags with.\<close>

definition CURRENT_VERSION :: string where
  "CURRENT_VERSION = ''1.0.0''"

definition BACKUP_DIR :: "env \<Rightarrow> path" where
  "BACKUP_DIR e = join3 (home e) ''.simple-test-app'' ''backup''"

definition DB_BACKUP_PATH :: "env \<Rightarrow> path" where
  "DB_BACKUP_PATH e = join (BACKUP_DIR e) ''users.db''"

text \<open>\<^verbatim>\<open>update_utils.get_db_path\<close>: the file the updater backs up and restores.\<close>

definition get_db_path :: "env \<Rightarrow> path" where
  "get_db_path e =
     (let app_dir = (if frozen e then dirname (executable e) else dirname (module_file e))
      in join3 app_dir ''data'' ''users.db'')"

text \<open>
  \<^verbatim>\<open>main.Database.get_db_path\<close>: the file the record store opens. The call also creates
  the directory; only the returned path is modelled here.
\<close>

definition Database_get_db_path :: "env \<Rightarrow> path" where
  "Database_get_db_path e = join3 (home e) ''.simple-test-app'' ''users.db''"

section \<open>Files, exceptions and observable events\<close>

text \<open>
  The world says what is at each path the Python code itself tests, copies or writes (the
  live database file, its backup, the downloaded archive): nothing, a regular file with
  its content, or a directory. It also holds the chronological trace of the program's
  observable actions. The extraction tree is not stored: its listing is supplied by the
  caller, as is every exception the operating system, the network or a subprocess may
  raise for a reason the world does not show.
\<close>

datatype exn =
    OSError string
  | IsADirectoryError path
  | FileNotFoundError path
  | SameFileError path path
  | RequestException string
  | JSONDecodeError string
  | CalledProcessError "string list" int

text \<open>The text of a message: a literal, or an f-string ending in an exception or a number.\<close>

datatype message =
    Text string
  | TextExn string exn
  | TextInt string int

datatype event =
    Print message
  | ShowError string message
  | ShowInfo string message
  | AskYesNo string message
  | Get string
  | Run "string list"
  | Sleep nat

datatype node = File bytes | Dir

record world =
  files :: "path \<rightharpoonup> node"
  trace :: "event list"

definition emit :: "event \<Rightarrow> world \<Rightarrow> world" where
  "emit ev w = w\<lparr>trace := trace w @ [ev]\<rparr>"

definition os_path_exists :: "world \<Rightarrow> path \<Rightarrow> bool" where
  "os_path_exists w p = (files w p \<noteq> None)"

definition os_path_isdir :: "world \<Rightarrow> path \<Rightarrow> bool" where
  "os_path_isdir w p = (files w p = Some Dir)"

text \<open>\<^verbatim>\<open>posixpath.basename(p)\<close>: what follows the last separator.\<close>

definition basename :: "path \<Rightarrow> path" where
  "basename p = rev (takeWhile (\<lambda>c. c \<noteq> CHR ''/'') (rev p))"

text \<open>
  A failure of \<^verbatim>\<open>shutil.copy2\<close> that the world does not show: one raised before the
  destination is opened, which leaves it as it was, or one raised later, which leaves the
  destination holding some bytes.
\<close>

datatype copy_failure =
    ReadFails exn
  | WriteFails exn bytes

text \<open>
  What the file-system calls of one backup or restore do beyond what the world decides:
  \<^verbatim>\<open>os.makedirs\<close> may raise, and the copy may fail.
\<close>

record io_faults =
  makedirs_fault :: "exn option"
  copy_fault :: "copy_failure option"

text \<open>
  \<^verbatim>\<open>shutil.copy2(src, dst)\<close>. A destination that is a directory stands for the file of
  the source's name inside it. Copying a file onto itself raises, as does a source that
  is missing or a directory, and a destination file that is a directory. Otherwise the
  destination receives the content of the source. The result is the exception raised, if
  any, and the world afterwards.
\<close>

definition copy2_target :: "world \<Rightarrow> path \<Rightarrow> path \<Rightarrow> path" where
  "copy2_target w src dst = (if os_path_isdir w dst then join dst (basename src) else dst)"

definition copy2 :: "copy_failure option \<Rightarrow> path \<Rightarrow> path \<Rightarrow> world \<Rightarrow> exn option \<times> world" where
  "copy2 fault src dst w =
     (let target = copy2_target w src dst
      in if src = target then (Some (SameFileError src target), w)
         else
           (case files w src of
              None \<Rightarrow> (Some (FileNotFoundError src), w)
            | Some Dir \<Rightarrow> (Some (IsADirectoryError src), w)
            | Some (File content) \<Rightarrow>
                (case fault of
                   Some (ReadFails x) \<Rightarrow> (Some x, w)
                 | Some (WriteFails x part) \<Rightarrow>
                     if os_path_isdir w target then (Some (IsADirectoryError target), w)
                     else (Some x, w\<lparr>files := (files w)(target \<mapsto> File part)\<rparr>)
                 | None \<Rightarrow>
                     if os_path_isdir w target then (Some (IsADirectoryError target), w)
                     else (None, w\<lparr>files := (files w)(target \<mapsto> File content)\<rparr>))))"

section \<open>Backup and restore\<close>

definition backup_user_data :: "env \<Rightarrow> io_faults \<Rightarrow> world \<Rightarrow> bool \<times> world" where
  "backup_user_data e io w =
     (case makedirs_fault io of
        Some x \<Rightarrow> (False, emit (Print (TextExn ''Backup failed: '' x)) w)
      | None \<Rightarrow>
          if os_path_exists w (get_db_path e) then
            (case copy2 (copy_fault io) (get_db_path e) (DB_BACKUP_PATH e) w of
               (Some x, w1) \<Rightarrow> (False, emit (Print (TextExn ''Backup failed: '' x)) w1)
             | (None, w1) \<Rightarrow>
                 (True, emit (Print (Text (''Database backed up to '' @ DB_BACKUP_PATH e))) w1))
          else (True, emit (Print (Text ''No database found to backup'')) w))"

definition restore_user_data :: "env \<Rightarrow> io_faults \<Rightarrow> world \<Rightarrow> bool \<times> world" where
  "restore_user_data e io w =
     (if os_path_exists w (DB_BACKUP_PATH e) then
        (case makedirs_fault io of
           Some x \<Rightarrow> (False, emit (Print (TextExn ''Restore failed: '' x)) w)
         | None \<Rightarrow>
             (case copy2 (copy_fault io) (DB_BACKUP_PATH e) (get_db_path e) w of
                (Some x, w1) \<Rightarrow> (False, emit (Print (TextExn ''Restore failed: '' x)) w1)
              | (None, w1) \<Rightarrow> (True, emit (Print (Text ''Database restored from backup'')) w1)))
      else (True, emit (Print (Text ''No backup found to restore'')) w))"

text \<open>The messages by which a call of \<^verbatim>\<open>restore_user_data\<close> shows in the trace.\<close>

fun restore_event :: "event \<Rightarrow> bool" where
  "restore_event (Print (Text s)) =
     (s = ''Database restored from backup'' \<or> s = ''No backup found to restore'')"
| "restore_event (Print (TextExn s x)) = (s = ''Restore failed: '')"
| "restore_event _ = False"

section \<open>The update sequence\<close>

record asset =
  name :: string
  browser_download_url :: string

text \<open>The parsed release JSON; \<open>None\<close> is an absent key.\<close>

record release =
  tag_name :: "string option"
  assets :: "asset list option"

definition endswith :: "string \<Rightarrow> string \<Rightarrow> bool" where
  "endswith s suffix =
     (length suffix \<le> length s \<and> drop (length s - length suffix) s = suffix)"

text \<open>The loop over the assets: the URL of the first one whose name ends in \<^verbatim>\<open>.tar.gz\<close>.\<close>

fun find_download_url :: "asset list \<Rightarrow> string option" where
  "find_download_url [] = None"
| "find_download_url (a # rest) =
     (if endswith (name a) ''.tar.gz'' then Some (browser_download_url a)
      else find_download_url rest)"

text \<open>
  The loop over \<^verbatim>\<open>os.walk(extract_dir)\<close>, whose triples \<open>(root, dirs, files)\<close> are given
  in the order the walk yields them.
\<close>

fun find_install_script :: "(path \<times> string list \<times> string list) list \<Rightarrow> path option" where
  "find_install_script [] = None"
| "find_install_script ((root, dirs, fs) # rest) =
     (if ''install.sh'' \<in> set fs then Some (join root ''install.sh'')
      else find_install_script rest)"

datatype download_result =
    DownloadRaises exn "bytes option"
  | DownloadOk bytes

datatype run_result =
    RunRaises exn
  | RunExit int

text \<open>
  Everything outside the program that one run of the update depends on: the faults of
  the backup and of the restore, the outcome of the download (a failed one may have
  written part of the file), whether preparing the extraction directory raises, the
  outcome of \<^verbatim>\<open>tar\<close>, the listing of the extracted tree, and the outcome of the install
  script together with what it did to the files.
\<close>

record update_oracle =
  backup_io :: io_faults
  download :: download_result
  extract_prep :: "exn option"
  tar_run :: run_result
  walk :: "(path \<times> string list \<times> string list) list"
  install_run :: run_result
  install_effect :: "(path \<rightharpoonup> node) \<Rightarrow> (path \<rightharpoonup> node)"
  restore_io :: io_faults

datatype outcome = Returned | SystemExit int

definition extract_dir :: path where
  "extract_dir = ''/tmp/simple-test-app-update''"

definition download_path :: "string \<Rightarrow> path" where
  "download_path latest_version =
     join ''/tmp'' (''simple-test-app-'' @ latest_version @ ''.tar.gz'')"

text \<open>\<^verbatim>\<open>subprocess.run(argv, check=True)\<close>: the exception it raises, if any.\<close>

definition run_check :: "string list \<Rightarrow> run_result \<Rightarrow> exn option" where
  "run_check argv r =
     (case r of
        RunRaises x \<Rightarrow> Some x
      | RunExit rc \<Rightarrow> if rc \<noteq> 0 then Some (CalledProcessError argv rc) else None)"

text \<open>Steps 7 and 8: wait, restore, announce, exit.\<close>

definition update_complete :: event where
  "update_complete =
     ShowInfo ''Update Complete''
       (Text ''Update completed successfully!\<newline>Please restart the application.'')"

definition finish_update :: "env \<Rightarrow> update_oracle \<Rightarrow> world \<Rightarrow> (exn + outcome) \<times> world" where
  "finish_update e orc w =
     (let w1 = snd (restore_user_data e (restore_io orc) (emit (Sleep 1) w))
      in (Inr (SystemExit 0), emit update_complete w1))"

text \<open>Steps 5 and 6: locate the install script and run it.\<close>

definition install_update :: "env \<Rightarrow> update_oracle \<Rightarrow> world \<Rightarrow> (exn + outcome) \<times> world" where
  "install_update e orc w =
     (case find_install_script (walk orc) of
        None \<Rightarrow> finish_update e orc w
      | Some install_script \<Rightarrow>
          if install_script = [] then finish_update e orc w
          else
            (let argv = [''sudo'', ''bash'', install_script];
                 w1 = emit (Run argv) (emit (ShowInfo ''Update'' (Text ''Installing update...'')) w);
                 w2 = (case install_run orc of
                         RunRaises x \<Rightarrow> w1
                       | RunExit rc \<Rightarrow> w1\<lparr>files := install_effect orc (files w1)\<rparr>)
             in case run_check argv (install_run orc) of
                  Some x \<Rightarrow> (Inl x, w2)
                | None \<Rightarrow> finish_update e orc w2))"

text \<open>Step 4: recreate the extraction directory and unpack the archive.\<close>

definition extract_update ::
  "env \<Rightarrow> update_oracle \<Rightarrow> string \<Rightarrow> world \<Rightarrow> (exn + outcome) \<times> world" where
  "extract_update e orc latest_version w =
     (case extract_prep orc of
        Some x \<Rightarrow> (Inl x, w)
      | None \<Rightarrow>
          (let argv = [''tar'', ''-xzf'', download_path latest_version, ''-C'', extract_dir];
               w1 = emit (Run argv) w
           in case run_check argv (tar_run orc) of
                Some x \<Rightarrow> (Inl x, w1)
              | None \<Rightarrow> install_update e orc w1))"

text \<open>The body of the \<^verbatim>\<open>try\<close> block; \<open>Inl x\<close> is the exception \<open>x\<close> reaching the handler.\<close>

definition update_body ::
  "env \<Rightarrow> update_oracle \<Rightarrow> string \<Rightarrow> release \<Rightarrow> world \<Rightarrow> (exn + outcome) \<times> world" where
  "update_body e orc latest_version release_data w =
     (let (ok, w1) = backup_user_data e (backup_io orc) w
      in if \<not> ok
         then (Inr Returned,
               emit (ShowError ''Update Error'' (Text ''Failed to backup user data'')) w1)
         else
           (let download_url =
                  find_download_url (case assets release_data of None \<Rightarrow> [] | Some l \<Rightarrow> l)
            in if download_url = None \<or> download_url = Some []
               then (Inr Returned,
                     emit (ShowError ''Update Error'' (Text ''No update package found'')) w1)
               else
                 (let w2 = emit (Get (the download_url))
                             (emit (ShowInfo ''Update'' (Text ''Downloading update...'')) w1)
                  in case download orc of
                       DownloadRaises x left \<Rightarrow>
                         (Inl x,
                          (case left of
                             None \<Rightarrow> w2
                           | Some part \<Rightarrow>
                               w2\<lparr>files := (files w2)(download_path latest_version \<mapsto> File part)\<rparr>))
                     | DownloadOk archive \<Rightarrow>
                         extract_update e orc latest_version
                           (w2\<lparr>files := (files w2)(download_path latest_version \<mapsto> File archive)\<rparr>))))"

definition update_application ::
  "env \<Rightarrow> update_oracle \<Rightarrow> string \<Rightarrow> release \<Rightarrow> world \<Rightarrow> outcome \<times> world" where
  "update_application e orc latest_version release_data w =
     (case update_body e orc latest_version release_data w of
        (Inl x, w1) \<Rightarrow>
          (Returned,
           emit (Print (TextExn ''Update failed: '' x))
             (emit (ShowError ''Update Error'' (TextExn ''Update failed: '' x)) w1))
      | (Inr out, w1) \<Rightarrow> (out, w1))"

section \<open>The update check\<close>

definition GITHUB_REPO_API :: string where
  "GITHUB_REPO_API = ''https://api.github.com/repos/pahilabs/simple-test-app/releases/latest''"

text \<open>\<^verbatim>\<open>str.lstrip('v')\<close> removes every leading \<^verbatim>\<open>v\<close>.\<close>

definition lstrip_v :: "string \<Rightarrow> string" where
  "lstrip_v s = dropWhile (\<lambda>c. c = CHR ''v'') s"

text \<open>
  The specification's wording of the same step, "\<^verbatim>\<open>tag_name\<close> with a leading \<^verbatim>\<open>v\<close>
  stripped": one \<^verbatim>\<open>v\<close> is removed if the tag starts with one.
\<close>

definition spec_strip_leading_v :: "string \<Rightarrow> string" where
  "spec_strip_leading_v s = (case s of [] \<Rightarrow> [] | c # rest \<Rightarrow> if c = CHR ''v'' then rest else s)"

text \<open>
  The response of the release endpoint: the request raises, or it returns a status code
  and a body that \<^verbatim>\<open>response.json()\<close> parses or fails to parse.
\<close>

datatype http_result =
    HttpRaises exn
  | HttpResponse int "exn + release"

record check_oracle =
  http :: http_result
  confirm :: bool
  update :: update_oracle

definition update_prompt :: "string \<Rightarrow> message" where
  "update_prompt latest_version =
     Text (''A new version ('' @ latest_version @ '') is available.\<newline>''
           @ ''Current version: '' @ CURRENT_VERSION @ ''\<newline>\<newline>''
           @ ''Do you want to update now?'')"

definition check_for_new_version :: "env \<Rightarrow> check_oracle \<Rightarrow> world \<Rightarrow> outcome \<times> world" where
  "check_for_new_version e orc w =
     (let w0 = emit (Get GITHUB_REPO_API) w
      in case http orc of
           HttpRaises x \<Rightarrow> (Returned, emit (Print (TextExn ''Update check failed: '' x)) w0)
         | HttpResponse status_code body \<Rightarrow>
             if status_code = 200 then
               (case body of
                  Inl x \<Rightarrow> (Returned, emit (Print (TextExn ''Update check failed: '' x)) w0)
                | Inr data \<Rightarrow>
                    (let latest_version =
                           lstrip_v (case tag_name data of None \<Rightarrow> [] | Some t \<Rightarrow> t)
                     in if latest_version \<noteq> [] \<and> latest_version \<noteq> CURRENT_VERSION then
                          (let w1 = emit (Print (Text (''New version available: '' @ latest_version))) w0;
                               w2 = emit (AskYesNo ''Update Available'' (update_prompt latest_version)) w1
                           in if confirm orc
                              then update_application e (update orc) latest_version data w2
                              else (Returned, w2))
                        else (Returned, emit (Print (Text ''You are running the latest version'')) w0)))
             else (Returned,
                   emit (Print (TextInt ''Could not check for updates: '' status_code)) w0))"

text \<open>The events the check adds to the trace.\<close>

definition new_events :: "world \<Rightarrow> world \<Rightarrow> event list" where
  "new_events w w' = drop (length (trace w)) (trace w')"

text \<open>The command lines of the subprocesses among some events, in order.\<close>

fun runs :: "event list \<Rightarrow> string list list" where
  "runs [] = []"
| "runs (Run argv # evs) = argv # runs evs"
| "runs (ev # evs) = runs evs"

fun is_offer :: "event \<Rightarrow> bool" where
  "is_offer (AskYesNo title m) = True"
| "is_offer _ = False"

section \<open>The record store\<close>

text \<open>
  The logical content of the backing file: the rows of \<^verbatim>\<open>users\<close> in rowid order, the
  next AUTOINCREMENT id, and the settings table. The \<^verbatim>\<open>email\<close> column is nullable.
  \<^verbatim>\<open>created_at\<close> is the text SQLite stores for CURRENT_TIMESTAMP, compared as text.
\<close>

record user_row =
  id_col :: nat
  username :: string
  password_hash :: string
  email :: "string option"
  created_at :: string

record store =
  users :: "user_row list"
  next_id :: nat
  app_settings :: "string \<rightharpoonup> string"

text \<open>
  What one store operation takes from outside: a \<^verbatim>\<open>sqlite3.Error\<close> other than the
  uniqueness violation (its message), and the clock reading CURRENT_TIMESTAMP yields.
\<close>

record db_oracle =
  db_fault :: "string option"
  now :: string

text \<open>\<^verbatim>\<open>hash_password\<close>, over the digest function of \<^verbatim>\<open>hashlib\<close>.\<close>

definition hash_password :: "(string \<Rightarrow> string) \<Rightarrow> string \<Rightarrow> string" where
  "hash_password sha256_hexdigest password = sha256_hexdigest password"

definition register_user ::
  "(string \<Rightarrow> string) \<Rightarrow> db_oracle \<Rightarrow> store \<Rightarrow> string \<Rightarrow> string \<Rightarrow> string
     \<Rightarrow> (bool \<times> string) \<times> store" where
  "register_user sha256_hexdigest orc s uname password mail =
     (case db_fault orc of
        Some msg \<Rightarrow> ((False, ''Database error: '' @ msg), s)
      | None \<Rightarrow>
          if uname \<in> set (map username (users s))
          then ((False, ''Username already exists!''), s)
          else ((True, ''User registered successfully!''),
                s\<lparr>users := users s @
                     [\<lparr>id_col = next_id s, username = uname,
                       password_hash = hash_password sha256_hexdigest password,
                       email = Some mail, created_at = now orc\<rparr>],
                   next_id := Suc (next_id s)\<rparr>))"

text \<open>
  \<^verbatim>\<open>ORDER BY created_at DESC\<close> over a scan in rowid order: a row goes behind every row
  whose \<^verbatim>\<open>created_at\<close> is not smaller, so rows with equal \<^verbatim>\<open>created_at\<close> keep their
  rowid order, as SQLite's sorter leaves them.
\<close>

fun insort_desc :: "user_row \<Rightarrow> user_row list \<Rightarrow> user_row list" where
  "insort_desc r [] = [r]"
| "insort_desc r (x # xs) =
     (if created_at x < created_at r then r # x # xs else x # insort_desc r xs)"

definition order_by_created_at_desc :: "user_row list \<Rightarrow> user_row list" where
  "order_by_created_at_desc rows = foldl (\<lambda>acc r. insort_desc r acc) [] rows"

definition user_tuple :: "user_row \<Rightarrow> string \<times> string \<times> string" where
  "user_tuple user =
     (username user, (case email user of None \<Rightarrow> [] | Some m \<Rightarrow> if m = [] then [] else m),
      created_at user)"

text \<open>
  \<^verbatim>\<open>get_users\<close>: the rows in the order of the query, converted to tuples; the empty list
  when the database raises. Its debugging output is left out.
\<close>

definition get_users :: "db_oracle \<Rightarrow> store \<Rightarrow> (string \<times> string \<times> string) list" where
  "get_users orc s =
     (case db_fault orc of
        Some msg \<Rightarrow> []
      | None \<Rightarrow> map user_tuple (order_by_created_at_desc (users s)))"

section \<open>Concrete inputs\<close>

text \<open>An environment, fault-free oracles and small states on which the results are evaluated.\<close>

definition demo_env :: env where
  "demo_env = \<lparr>home = ''/home/u'', frozen = False, executable = ''/usr/bin/python3'',
                module_file = ''/opt/app/update_utils.py''\<rparr>"

definition no_faults :: io_faults where
  "no_faults = \<lparr>makedirs_fault = None, copy_fault = None\<rparr>"

definition empty_world :: world where
  "empty_world = \<lparr>files = Map.empty, trace = []\<rparr>"

definition live_world :: world where
  "live_world = \<lparr>files = [''/opt/app/data/users.db'' \<mapsto> File ''rows''], trace = []\<rparr>"

text \<open>Directories where the live data file and the backup file should be.\<close>

definition dir_world :: world where
  "dir_world =
     \<lparr>files = [''/opt/app/data/users.db'' \<mapsto> Dir,
               ''/home/u/.simple-test-app/backup/users.db'' \<mapsto> Dir],
      trace = []\<rparr>"

definition empty_store :: store where
  "empty_store = \<lparr>users = [], next_id = 1, app_settings = Map.empty\<rparr>"

definition at_noon :: db_oracle where
  "at_noon = \<lparr>db_fault = None, now = ''2024-01-01 12:00:00''\<rparr>"

definition one_second_later :: db_oracle where
  "one_second_later = \<lparr>db_fault = None, now = ''2024-01-01 12:00:01''\<rparr>"

definition null_email_store :: store where
  "null_email_store =
     \<lparr>users = [\<lparr>id_col = 1, username = ''ann'', password_hash = ''h'', email = None,
                created_at = ''2024-01-01 12:00:00''\<rparr>],
      next_id = 2, app_settings = Map.empty\<rparr>"

definition demo_release :: "string \<Rightarrow> release" where
  "demo_release tag =
     \<lparr>tag_name = Some tag,
      assets = Some [\<lparr>name = ''notes.txt'', browser_download_url = ''https://example.org/notes.txt''\<rparr>,
                     \<lparr>name = ''app.tar.gz'', browser_download_url = ''https://example.org/app.tar.gz''\<rparr>]\<rparr>"

definition demo_update :: "(path \<times> string list \<times> string list) list \<Rightarrow> int \<Rightarrow> update_oracle" where
  "demo_update tree rc =
     \<lparr>backup_io = no_faults, download = DownloadOk ''archive'', extract_prep = None,
      tar_run = RunExit 0, walk = tree, install_run = RunExit rc, install_effect = id,
      restore_io = no_faults\<rparr>"

definition demo_check :: "string \<Rightarrow> bool \<Rightarrow> check_oracle" where
  "demo_check tag answer =
     \<lparr>http = HttpResponse 200 (Inr (demo_release tag)), confirm = answer,
      update = demo_update [] 0\<rparr>"

definition script_tree :: "(path \<times> string list \<times> string list) list" where
  "script_tree =
     [(''/tmp/simple-test-app-update'', [''app''], [''README'']),
      (''/tmp/simple-test-app-update/app'', [''old''], [''main.py'', ''install.sh'']),
      (''/tmp/simple-test-app-update/app/old'', [], [''install.sh''])]"

definition plain_tree :: "(path \<times> string list \<times> string list) list" where
  "plain_tree = [(''/tmp/simple-test-app-update'', [], [''README''])]"

section \<open>Facts about the paths\<close>

lemma join_relative:
  "b \<noteq> [] \<Longrightarrow> hd b \<noteq> CHR ''/'' \<Longrightarrow>
   join a b = (if a = [] \<or> last a = CHR ''/'' then a else a @ ''/'') @ b"
  by (simp add: join_def)

lemma join3_relative:
  assumes "b \<noteq> []" "hd b \<noteq> CHR ''/''" "last b \<noteq> CHR ''/''" "c \<noteq> []" "hd c \<noteq> CHR ''/''"
  shows "join3 a b c = (if a = [] \<or> last a = CHR ''/'' then a else a @ ''/'') @ b @ ''/'' @ c"
proof -
  let ?p = "(if a = [] \<or> last a = CHR ''/'' then a else a @ ''/'')"
  have ab: "join a b = ?p @ b" using assms(1,2) by (rule join_relative)
  have "?p @ b \<noteq> []" using assms(1) by simp
  moreover have "last (?p @ b) \<noteq> CHR ''/''" using assms(1,3) by simp
  ultimately have "join (?p @ b) c = (?p @ b) @ ''/'' @ c"
    using assms(4,5) by (simp add: join_relative)
  then show ?thesis unfolding join3_def ab by simp
qed

lemma get_db_path_shape: "\<exists>x. get_db_path e = x @ ''data/users.db''"
  unfolding get_db_path_def Let_def by (subst join3_relative) auto

lemma Database_get_db_path_shape: "\<exists>y. Database_get_db_path e = y @ ''-app/users.db''"
proof -
  have "\<exists>y. Database_get_db_path e = y @ ''.simple-test-app/users.db''"
    unfolding Database_get_db_path_def by (subst join3_relative) auto
  then obtain y where "Database_get_db_path e = (y @ ''.simple-test'') @ ''-app/users.db''"
    by auto
  then show ?thesis by blast
qed

lemma DB_BACKUP_PATH_shape: "\<exists>y. DB_BACKUP_PATH e = y @ ''s.db''"
proof -
  have "\<exists>y. DB_BACKUP_PATH e = y @ ''users.db''"
    unfolding DB_BACKUP_PATH_def by (subst join_relative) auto
  then obtain y where "DB_BACKUP_PATH e = (y @ ''user'') @ ''s.db''" by auto
  then show ?thesis by blast
qed

lemma download_path_shape: "\<exists>y. download_path v = y @ ''r.gz''"
proof -
  have "download_path v = (''/tmp/simple-test-app-'' @ v @ ''.ta'') @ ''r.gz''"
    by (simp add: download_path_def join_def)
  then show ?thesis by blast
qed

lemma download_path_not_backup: "download_path v \<noteq> DB_BACKUP_PATH e"
proof
  assume eq: "download_path v = DB_BACKUP_PATH e"
  obtain x where x: "download_path v = x @ ''r.gz''" using download_path_shape by blast
  obtain y where y: "DB_BACKUP_PATH e = y @ ''s.db''" using DB_BACKUP_PATH_shape by blast
  have "x @ ''r.gz'' = y @ ''s.db''" using eq x y by simp
  then have "''r.gz'' = ''s.db''" by (subst (asm) append_eq_append_conv) simp_all
  then show False by simp
qed

lemma find_install_script_nonempty: "find_install_script l = Some s \<Longrightarrow> s \<noteq> []"
proof (induction l rule: find_install_script.induct)
  case 1
  then show ?case by simp
next
  case (2 root dirs fs rest)
  then show ?case by (auto simp: join_relative split: if_splits)
qed


lemma join_relative_longer:
  "b \<noteq> [] \<Longrightarrow> hd b \<noteq> CHR ''/'' \<Longrightarrow> length a < length (join a b)"
  by (simp add: join_relative)

lemma basename_get_db_path: "basename (get_db_path e) = ''users.db''"
proof -
  have "\<exists>x. get_db_path e = x @ ''/users.db''"
    unfolding get_db_path_def Let_def by (subst join3_relative) auto
  then obtain x where "get_db_path e = x @ ''/users.db''" by blast
  then show ?thesis by (simp add: basename_def)
qed

lemma copy2_target_backup_shape:
  "\<exists>y. copy2_target w (get_db_path e) (DB_BACKUP_PATH e) = y @ ''s.db''"
proof (cases "os_path_isdir w (DB_BACKUP_PATH e)")
  case True
  have "\<exists>y. join (DB_BACKUP_PATH e) ''users.db'' = y @ ''users.db''"
    by (subst join_relative) auto
  then obtain y where "join (DB_BACKUP_PATH e) ''users.db'' = (y @ ''user'') @ ''s.db''" by auto
  then show ?thesis using True unfolding copy2_target_def basename_get_db_path by (metis (full_types))
next
  case False
  then show ?thesis using DB_BACKUP_PATH_shape by (simp add: copy2_target_def)
qed

lemma download_path_not_backup_target:
  "download_path v \<noteq> copy2_target w (get_db_path e) (DB_BACKUP_PATH e)"
proof
  assume eq: "download_path v = copy2_target w (get_db_path e) (DB_BACKUP_PATH e)"
  obtain x where x: "download_path v = x @ ''r.gz''" using download_path_shape by blast
  obtain y where y: "copy2_target w (get_db_path e) (DB_BACKUP_PATH e) = y @ ''s.db''"
    using copy2_target_backup_shape by blast
  have "x @ ''r.gz'' = y @ ''s.db''" using eq x y by simp
  then have "''r.gz'' = ''s.db''" by (subst (asm) append_eq_append_conv) simp_all
  then show False by simp
qed

section \<open>Facts about copying\<close>

lemma copy2_target_plain: "files w dst \<noteq> Some Dir \<Longrightarrow> copy2_target w src dst = dst"
  by (simp add: copy2_target_def os_path_isdir_def)

lemma copy2_trace: "trace (snd (copy2 fault src dst w)) = trace w"
  by (simp add: copy2_def Let_def split: option.splits node.splits copy_failure.splits)

lemma copy2_succeeds_iff:
  "fst (copy2 fault src dst w) = None \<longleftrightarrow>
     fault = None \<and> (\<exists>content. files w src = Some (File content))
     \<and> src \<noteq> copy2_target w src dst \<and> files w (copy2_target w src dst) \<noteq> Some Dir"
  by (auto simp: copy2_def Let_def os_path_isdir_def
           split: option.splits node.splits copy_failure.splits)

lemma copy2_success:
  assumes "copy2 fault src dst w = (None, w1)"
  shows "\<exists>content. files w src = Some (File content)
           \<and> w1 = w\<lparr>files := (files w)(copy2_target w src dst \<mapsto> File content)\<rparr>"
  using assms
  by (auto simp: copy2_def Let_def split: option.splits node.splits copy_failure.splits if_splits)

lemma copy2_failure_source:
  "copy2 fault src dst w = (Some x, w1) \<Longrightarrow> files w1 src = files w src"
  by (auto simp: copy2_def Let_def split: option.splits node.splits copy_failure.splits if_splits)

section \<open>The trace only grows\<close>

lemma trace_emit: "trace (emit ev w) = trace w @ [ev]"
  by (simp add: emit_def)

lemma files_emit: "files (emit ev w) = files w"
  by (simp add: emit_def)

lemma backup_print:
  "backup_user_data e io w = (ok, w1) \<Longrightarrow>
   \<exists>m. trace w1 = trace w @ [Print m] \<and> \<not> restore_event (Print m)"
proof -
  assume a: "backup_user_data e io w = (ok, w1)"
  obtain r wc where c: "copy2 (copy_fault io) (get_db_path e) (DB_BACKUP_PATH e) w = (r, wc)"
    by force
  have t: "trace wc = trace w" using copy2_trace [of "copy_fault io" "get_db_path e" "DB_BACKUP_PATH e" w] c by simp
  show ?thesis
    using a t by (auto simp: backup_user_data_def c trace_emit split: option.splits if_splits)
qed

lemma restore_print:
  "\<exists>m. trace (snd (restore_user_data e io w)) = trace w @ [Print m] \<and> restore_event (Print m)"
proof -
  obtain r wc where c: "copy2 (copy_fault io) (DB_BACKUP_PATH e) (get_db_path e) w = (r, wc)"
    by force
  have t: "trace wc = trace w" using copy2_trace [of "copy_fault io" "DB_BACKUP_PATH e" "get_db_path e" w] c by simp
  show ?thesis
    using t by (auto simp: restore_user_data_def c trace_emit split: option.splits if_splits)
qed

lemma backup_trace: "\<exists>ev. trace (snd (backup_user_data e io w)) = trace w @ [Print ev]"
  using backup_print [of e io w "fst (backup_user_data e io w)" "snd (backup_user_data e io w)"]
  by auto

lemma restore_trace: "\<exists>ev. trace (snd (restore_user_data e io w)) = trace w @ [Print ev]"
  using restore_print [of e io w] by blast

lemma backup_success:
  assumes "backup_user_data e io w = (True, w1)"
  shows "files w (get_db_path e) = Some (File content) \<Longrightarrow>
           files w1 = (files w)(copy2_target w (get_db_path e) (DB_BACKUP_PATH e) \<mapsto> File content)"
    and "files w (get_db_path e) = None \<Longrightarrow> files w1 = files w"
proof -
  obtain r wc where c: "copy2 (copy_fault io) (get_db_path e) (DB_BACKUP_PATH e) w = (r, wc)"
    by force
  show "files w1 = (files w)(copy2_target w (get_db_path e) (DB_BACKUP_PATH e) \<mapsto> File content)"
    if "files w (get_db_path e) = Some (File content)"
  proof -
    have "r = None" and "w1 = emit (Print (Text (''Database backed up to '' @ DB_BACKUP_PATH e))) wc"
      using assms that
      by (auto simp: backup_user_data_def c os_path_exists_def split: option.splits if_splits)
    moreover obtain content' where "files w (get_db_path e) = Some (File content')"
      and "wc = w\<lparr>files := (files w)(copy2_target w (get_db_path e) (DB_BACKUP_PATH e) \<mapsto> File content')\<rparr>"
      using copy2_success c \<open>r = None\<close> by blast
    ultimately show ?thesis using that by (simp add: files_emit)
  qed
  show "files w1 = files w" if "files w (get_db_path e) = None"
    using assms that
    by (auto simp: backup_user_data_def os_path_exists_def files_emit split: option.splits)
qed

lemma backup_returns:
  "fst (backup_user_data e io w) =
     (makedirs_fault io = None
      \<and> (files w (get_db_path e) = None
         \<or> fst (copy2 (copy_fault io) (get_db_path e) (DB_BACKUP_PATH e) w) = None))"
proof -
  obtain r1 wc1 where c1: "copy2 (copy_fault io) (get_db_path e) (DB_BACKUP_PATH e) w = (r1, wc1)"
    by force
  show ?thesis
    by (auto simp: backup_user_data_def c1 os_path_exists_def split: option.splits)
qed

lemma restore_returns:
  "fst (restore_user_data e io w) =
     (files w (DB_BACKUP_PATH e) = None
      \<or> (makedirs_fault io = None
         \<and> fst (copy2 (copy_fault io) (DB_BACKUP_PATH e) (get_db_path e) w) = None))"
proof -
  obtain r2 wc2 where c2: "copy2 (copy_fault io) (DB_BACKUP_PATH e) (get_db_path e) w = (r2, wc2)"
    by force
  show ?thesis
    by (auto simp: restore_user_data_def c2 os_path_exists_def split: option.splits)
qed

lemma copy2_unfaulted_failure:
  "copy2 None src dst w = (Some x, w1) \<Longrightarrow> w1 = w"
  by (auto simp: copy2_def Let_def split: option.splits node.splits if_splits)

lemma restore_files:
  "files (snd (restore_user_data e io w)) =
     (if files w (DB_BACKUP_PATH e) = None \<or> makedirs_fault io \<noteq> None then files w
      else files (snd (copy2 (copy_fault io) (DB_BACKUP_PATH e) (get_db_path e) w)))"
proof -
  obtain r2 wc2 where c2: "copy2 (copy_fault io) (DB_BACKUP_PATH e) (get_db_path e) w = (r2, wc2)"
    by force
  show ?thesis
    by (auto simp: restore_user_data_def c2 os_path_exists_def files_emit split: option.splits)
qed

lemma demo_get_db_path: "get_db_path demo_env = ''/opt/app/data/users.db''"
  by (simp add: get_db_path_def demo_env_def dirname_def rstrip_sep_def join3_def join_def)

lemma demo_DB_BACKUP_PATH: "DB_BACKUP_PATH demo_env = ''/home/u/.simple-test-app/backup/users.db''"
  by (simp add: DB_BACKUP_PATH_def BACKUP_DIR_def demo_env_def join3_def join_def)

section \<open>The trace of the update sequence\<close>

lemma finish_update_trace: "\<exists>evs. trace (snd (finish_update e orc w)) = trace w @ evs"
proof -
  obtain ev where "trace (snd (restore_user_data e (restore_io orc) (emit (Sleep 1) w)))
      = trace (emit (Sleep 1) w) @ [Print ev]"
    using restore_trace by blast
  then show ?thesis by (simp add: finish_update_def Let_def trace_emit)
qed

lemma install_update_trace: "\<exists>evs. trace (snd (install_update e orc w)) = trace w @ evs"
proof -
  have fin: "\<exists>evs. trace (snd (finish_update e orc w0)) = trace w @ evs"
    if "trace w0 = trace w @ pre" for w0 :: world and pre
  proof -
    obtain evs where "trace (snd (finish_update e orc w0)) = trace w0 @ evs"
      using finish_update_trace by blast
    then show ?thesis using that by simp
  qed
  show ?thesis
    unfolding install_update_def Let_def
    by (auto split: option.splits run_result.splits intro!: fin simp: trace_emit run_check_def)
qed

lemma extract_update_trace: "\<exists>evs. trace (snd (extract_update e orc v w)) = trace w @ evs"
proof -
  have ins: "\<exists>evs. trace (snd (install_update e orc (emit ev w))) = trace w @ evs" for ev
  proof -
    obtain evs where "trace (snd (install_update e orc (emit ev w))) = trace (emit ev w) @ evs"
      using install_update_trace by blast
    then show ?thesis by (simp add: trace_emit)
  qed
  show ?thesis
    unfolding extract_update_def Let_def
    by (auto split: option.splits simp: trace_emit intro!: ins)
qed

lemma update_body_trace: "\<exists>evs. trace (snd (update_body e orc v d w)) = trace w @ evs"
proof -
  obtain ok w1 where b: "backup_user_data e (backup_io orc) w = (ok, w1)" by force
  obtain ev where w1: "trace w1 = trace w @ [Print ev]" using backup_trace [of e "backup_io orc" w] b by auto
  have ext: "\<exists>evs. trace (snd (extract_update e orc v w0)) = trace w @ evs"
    if "trace w0 = trace w @ pre" for w0 :: world and pre
  proof -
    obtain evs where "trace (snd (extract_update e orc v w0)) = trace w0 @ evs"
      using extract_update_trace by blast
    then show ?thesis using that by simp
  qed
  show ?thesis
    unfolding update_body_def Let_def b
    by (auto split: option.splits download_result.splits simp: trace_emit w1 intro!: ext)
qed

lemma update_application_trace:
  "\<exists>evs. trace (snd (update_application e orc v d w)) = trace w @ evs"
proof -
  obtain r w1 where b: "update_body e orc v d w = (r, w1)" by force
  obtain evs where "trace w1 = trace w @ evs" using update_body_trace [of e orc v d w] b by auto
  then show ?thesis
    unfolding update_application_def b by (cases r) (simp_all add: trace_emit)
qed

section \<open>Facts about the update check\<close>

lemma new_events_append: "trace w' = trace w @ evs \<Longrightarrow> new_events w w' = evs"
  by (simp add: new_events_def)

lemma check_no_update:
  assumes "http orc = HttpResponse 200 (Inr data)"
    and "\<not> (lstrip_v (case tag_name data of None \<Rightarrow> [] | Some t \<Rightarrow> t) \<noteq> []
          \<and> lstrip_v (case tag_name data of None \<Rightarrow> [] | Some t \<Rightarrow> t) \<noteq> CURRENT_VERSION)"
  shows "check_for_new_version e orc w =
     (Returned, emit (Print (Text ''You are running the latest version''))
                  (emit (Get GITHUB_REPO_API) w))"
  using assms by (auto simp: check_for_new_version_def Let_def)

lemma check_update_offered:
  assumes "http orc = HttpResponse 200 (Inr data)"
    and "lstrip_v (case tag_name data of None \<Rightarrow> [] | Some t \<Rightarrow> t) = v"
    and "v \<noteq> []" and "v \<noteq> CURRENT_VERSION"
  shows "check_for_new_version e orc w =
     (let w2 = emit (AskYesNo ''Update Available'' (update_prompt v))
                 (emit (Print (Text (''New version available: '' @ v)))
                    (emit (Get GITHUB_REPO_API) w))
      in if confirm orc then update_application e (update orc) v data w2 else (Returned, w2))"
  using assms by (simp add: check_for_new_version_def Let_def)

lemma offered_events:
  assumes "http orc = HttpResponse 200 (Inr data)"
    and "lstrip_v (case tag_name data of None \<Rightarrow> [] | Some t \<Rightarrow> t) = v"
    and "v \<noteq> []" and "v \<noteq> CURRENT_VERSION"
  shows "\<exists>evs. new_events w (snd (check_for_new_version e orc w)) =
     [Get GITHUB_REPO_API, Print (Text (''New version available: '' @ v)),
      AskYesNo ''Update Available'' (update_prompt v)] @ evs"
proof -
  let ?w2 = "emit (AskYesNo ''Update Available'' (update_prompt v))
                 (emit (Print (Text (''New version available: '' @ v)))
                    (emit (Get GITHUB_REPO_API) w))"
  have w2: "trace ?w2 = trace w @ [Get GITHUB_REPO_API, Print (Text (''New version available: '' @ v)),
      AskYesNo ''Update Available'' (update_prompt v)]"
    by (simp add: trace_emit)
  show ?thesis
  proof (cases "confirm orc")
    case True
    obtain evs where "trace (snd (update_application e (update orc) v data ?w2)) = trace ?w2 @ evs"
      using update_application_trace by blast
    then have "trace (snd (check_for_new_version e orc w)) = trace w @
       [Get GITHUB_REPO_API, Print (Text (''New version available: '' @ v)),
        AskYesNo ''Update Available'' (update_prompt v)] @ evs"
      using True w2 check_update_offered [OF assms, where e = e and w = w] by (simp add: Let_def)
    then show ?thesis using new_events_append by blast
  next
    case False
    then have "trace (snd (check_for_new_version e orc w)) = trace w @
       [Get GITHUB_REPO_API, Print (Text (''New version available: '' @ v)),
        AskYesNo ''Update Available'' (update_prompt v)] @ []"
      using w2 check_update_offered [OF assms, where e = e and w = w] by (simp add: Let_def)
    then show ?thesis using new_events_append by blast
  qed
qed

section \<open>Facts about the update sequence\<close>

lemma finish_update_result:
  "\<exists>m. finish_update e orc w =
         (Inr (SystemExit 0), emit update_complete (snd (restore_user_data e (restore_io orc) (emit (Sleep 1) w))))
     \<and> trace (snd (finish_update e orc w)) = trace w @ [Sleep 1, Print m, update_complete]
     \<and> restore_event (Print m)"
proof -
  obtain m where "trace (snd (restore_user_data e (restore_io orc) (emit (Sleep 1) w)))
      = trace (emit (Sleep 1) w) @ [Print m]" and "restore_event (Print m)"
    using restore_print by blast
  then show ?thesis by (auto simp: finish_update_def Let_def trace_emit)
qed

lemma update_reaches_install:
  assumes "backup_user_data e (backup_io orc) w = (True, w1)"
    and "find_download_url (case assets d of None \<Rightarrow> [] | Some l \<Rightarrow> l) = Some url"
    and "url \<noteq> []"
    and "download orc = DownloadOk archive"
    and "extract_prep orc = None"
    and "tar_run orc = RunExit 0"
  shows "update_body e orc v d w =
     install_update e orc
       (w1\<lparr>files := (files w1)(download_path v \<mapsto> File archive),
           trace := trace w1 @ [ShowInfo ''Update'' (Text ''Downloading update...''), Get url,
                                Run [''tar'', ''-xzf'', download_path v, ''-C'', extract_dir]]\<rparr>)"
  using assms by (simp add: update_body_def extract_update_def run_check_def emit_def Let_def)

lemma find_install_script_first:
  assumes "\<forall>t\<in>set pre. ''install.sh'' \<notin> set (snd (snd t))" and "''install.sh'' \<in> set fs"
  shows "find_install_script (pre @ (root, dirs, fs) # post) = Some (join root ''install.sh'')"
  using assms by (induction pre) auto

lemma find_install_script_none:
  "find_install_script l = None \<longleftrightarrow> (\<forall>t\<in>set l. ''install.sh'' \<notin> set (snd (snd t)))"
  by (induction l rule: find_install_script.induct) auto

lemma runs_append: "runs (xs @ ys) = runs xs @ runs ys"
  by (induction xs rule: runs.induct) simp_all

lemma update_runs_install_script:
  assumes body: "update_body e orc v d w = install_update e orc wx"
    and scr: "find_install_script (walk orc) = Some script"
  shows "\<exists>rest. trace (snd (update_application e orc v d w)) =
            trace wx @ [ShowInfo ''Update'' (Text ''Installing update...''),
                        Run [''sudo'', ''bash'', script]] @ rest
          \<and> runs rest = []"
proof -
  have ne: "script \<noteq> []" using scr by (rule find_install_script_nonempty)
  let ?argv = "[''sudo'', ''bash'', script]"
  let ?w1 = "emit (Run ?argv) (emit (ShowInfo ''Update'' (Text ''Installing update...'')) wx)"
  have t1: "trace ?w1 = trace wx @ [ShowInfo ''Update'' (Text ''Installing update...''), Run ?argv]"
    by (simp add: trace_emit)
  show ?thesis
  proof (cases "run_check ?argv (install_run orc)")
    case (Some x)
    obtain w2 where w2: "install_update e orc wx = (Inl x, w2)" and t2: "trace w2 = trace ?w1"
      using Some scr ne
      by (cases "install_run orc") (simp_all add: install_update_def Let_def)
    have "trace (snd (update_application e orc v d w)) =
        trace wx @ [ShowInfo ''Update'' (Text ''Installing update...''), Run ?argv]
          @ [ShowError ''Update Error'' (TextExn ''Update failed: '' x),
             Print (TextExn ''Update failed: '' x)]"
      using body w2 t2 t1 by (simp add: update_application_def trace_emit)
    moreover have "runs [ShowError ''Update Error'' (TextExn ''Update failed: '' x),
             Print (TextExn ''Update failed: '' x)] = []" by simp
    ultimately show ?thesis by blast
  next
    case None
    then obtain rc where rc: "install_run orc = RunExit rc"
      by (cases "install_run orc") (simp_all add: run_check_def)
    let ?w2 = "?w1\<lparr>files := install_effect orc (files ?w1)\<rparr>"
    have iu: "install_update e orc wx = finish_update e orc ?w2"
      using None scr ne rc by (simp add: install_update_def Let_def)
    obtain m where fin: "finish_update e orc ?w2 =
         (Inr (SystemExit 0), emit update_complete (snd (restore_user_data e (restore_io orc) (emit (Sleep 1) ?w2))))"
      and tr: "trace (snd (finish_update e orc ?w2)) = trace ?w2 @ [Sleep 1, Print m, update_complete]"
      using finish_update_result [of e orc ?w2] by blast
    have "snd (update_application e orc v d w) = snd (finish_update e orc ?w2)"
      using body iu fin by (simp add: update_application_def)
    then have "trace (snd (update_application e orc v d w)) =
        trace wx @ [ShowInfo ''Update'' (Text ''Installing update...''), Run ?argv]
          @ [Sleep 1, Print m, update_complete]"
      using tr t1 by simp
    moreover have "runs [Sleep 1, Print m, update_complete] = []"
      by (simp add: update_complete_def)
    ultimately show ?thesis by blast
  qed
qed

lemma demo_live: "files live_world (get_db_path demo_env) = Some (File ''rows'')"
  by (simp add: live_world_def demo_get_db_path)

lemma demo_backup_target:
  "copy2_target live_world (get_db_path demo_env) (DB_BACKUP_PATH demo_env) = DB_BACKUP_PATH demo_env"
  by (simp add: copy2_target_plain live_world_def demo_DB_BACKUP_PATH)

lemma demo_backup_succeeds: "fst (backup_user_data demo_env no_faults live_world)"
proof -
  have "fst (copy2 None (get_db_path demo_env) (DB_BACKUP_PATH demo_env) live_world) = None"
    unfolding copy2_succeeds_iff demo_backup_target
    by (simp add: demo_get_db_path demo_DB_BACKUP_PATH live_world_def)
  then show ?thesis by (simp add: backup_returns no_faults_def)
qed

lemma demo_update_reaches_install:
  "backup_user_data demo_env (backup_io (demo_update tree rc)) live_world
     = (True, snd (backup_user_data demo_env (backup_io (demo_update tree rc)) live_world))"
  "find_download_url (case assets (demo_release ''v1.0.1'') of None \<Rightarrow> [] | Some l \<Rightarrow> l)
     = Some ''https://example.org/app.tar.gz''"
  "''https://example.org/app.tar.gz'' \<noteq> []"
  "download (demo_update tree rc) = DownloadOk ''archive''"
  "extract_prep (demo_update tree rc) = None"
  "tar_run (demo_update tree rc) = RunExit 0"
proof -
  have "fst (backup_user_data demo_env (backup_io (demo_update tree rc)) live_world)"
    using demo_backup_succeeds by (simp add: demo_update_def)
  then show "backup_user_data demo_env (backup_io (demo_update tree rc)) live_world
     = (True, snd (backup_user_data demo_env (backup_io (demo_update tree rc)) live_world))"
    by (simp add: prod_eq_iff)
  show "find_download_url (case assets (demo_release ''v1.0.1'') of None \<Rightarrow> [] | Some l \<Rightarrow> l)
     = Some ''https://example.org/app.tar.gz''"
    by (simp add: demo_release_def endswith_def)
  show "''https://example.org/app.tar.gz'' \<noteq> []" by simp
  show "download (demo_update tree rc) = DownloadOk ''archive''" by (simp add: demo_update_def)
  show "extract_prep (demo_update tree rc) = None" by (simp add: demo_update_def)
  show "tar_run (demo_update tree rc) = RunExit 0" by (simp add: demo_update_def)
qed

section \<open>Facts about the ordering of the listing\<close>

lemma set_insort_desc: "set (insort_desc r xs) = insert r (set xs)"
  by (induction xs) auto

lemma mset_insort_desc: "mset (insort_desc r xs) = add_mset r (mset xs)"
  by (induction xs) auto

lemma sorted_insort_desc:
  "sorted_wrt (\<lambda>a b. created_at b \<le> created_at a) xs \<Longrightarrow>
   sorted_wrt (\<lambda>a b. created_at b \<le> created_at a) (insort_desc r xs)"
proof (induction xs)
  case Nil
  then show ?case by simp
next
  case (Cons x xs)
  show ?case
  proof (cases "created_at x < created_at r")
    case True
    then have "\<forall>y\<in>set xs. created_at y \<le> created_at r"
      using Cons.prems by fastforce
    then show ?thesis using True Cons.prems by simp
  next
    case False
    then show ?thesis using Cons by (auto simp: set_insort_desc)
  qed
qed

lemma mset_foldl_insort_desc:
  "mset (foldl (\<lambda>acc r. insort_desc r acc) acc rows) = mset acc + mset rows"
  by (induction rows arbitrary: acc) (simp_all add: mset_insort_desc)

lemma sorted_foldl_insort_desc:
  "sorted_wrt (\<lambda>a b. created_at b \<le> created_at a) acc \<Longrightarrow>
   sorted_wrt (\<lambda>a b. created_at b \<le> created_at a) (foldl (\<lambda>acc r. insort_desc r acc) acc rows)"
  by (induction rows arbitrary: acc) (simp_all add: sorted_insort_desc)

lemma mset_order_by: "mset (order_by_created_at_desc rows) = mset rows"
  by (simp add: order_by_created_at_desc_def mset_foldl_insort_desc)

lemma set_order_by: "set (order_by_created_at_desc rows) = set rows"
  using mset_order_by [of rows] by (metis set_mset_mset)

lemma sorted_order_by:
  "sorted_wrt (\<lambda>a b. created_at b \<le> created_at a) (order_by_created_at_desc rows)"
  by (simp add: order_by_created_at_desc_def sorted_foldl_insort_desc)

lemma later_row_precedes:
  assumes srt: "sorted_wrt (\<lambda>a b. created_at b \<le> created_at a) res"
    and a: "a \<in> set res" and b: "b \<in> set res" and lt: "created_at b < created_at a"
  shows "\<exists>pre mid post. res = pre @ a # mid @ b # post"
proof -
  obtain pre rest where res: "res = pre @ a # rest" using a by (meson split_list)
  have "b \<notin> set pre"
  proof
    assume "b \<in> set pre"
    then have "created_at a \<le> created_at b" using srt res by (auto simp: sorted_wrt_append)
    then show False using lt by simp
  qed
  moreover have "b \<noteq> a" using lt by auto
  ultimately have "b \<in> set rest" using b res by auto
  then obtain mid post where "rest = mid @ b # post" by (meson split_list)
  then show ?thesis using res by blast
qed

lemma user_tuple_email:
  "user_tuple r = (username r, (case email r of None \<Rightarrow> [] | Some m \<Rightarrow> m), created_at r)"
  by (simp add: user_tuple_def split: option.splits)

section \<open>Facts about registration\<close>

lemma length_order_by: "length (order_by_created_at_desc rows) = length rows"
  using mset_order_by [of rows] by (metis size_mset)

lemma register_user_fresh:
  "db_fault orc = None \<Longrightarrow> uname \<notin> set (map username (users s)) \<Longrightarrow>
   users (snd (register_user h orc s uname p m)) =
     users s @ [\<lparr>id_col = next_id s, username = uname, password_hash = hash_password h p,
                 email = Some m, created_at = now orc\<rparr>]"
  by (simp add: register_user_def)

lemma filter_insort_desc:
  assumes "sorted_wrt (\<lambda>a b. created_at b \<le> created_at a) xs"
  shows "filter (\<lambda>x. created_at x = t) (insort_desc r xs)
           = filter (\<lambda>x. created_at x = t) xs @ (if created_at r = t then [r] else [])"
  using assms
proof (induction xs)
  case Nil
  then show ?case by simp
next
  case (Cons x xs)
  show ?case
  proof (cases "created_at x < created_at r")
    case True
    have "\<forall>y\<in>set (x # xs). created_at y < created_at r"
      using True Cons.prems by fastforce
    then have "created_at r = t \<Longrightarrow> filter (\<lambda>x. created_at x = t) (x # xs) = []"
      by (auto simp: filter_empty_conv)
    then show ?thesis using True by auto
  next
    case False
    then show ?thesis using Cons by simp
  qed
qed

lemma filter_foldl_insort_desc:
  "sorted_wrt (\<lambda>a b. created_at b \<le> created_at a) acc \<Longrightarrow>
   filter (\<lambda>x. created_at x = t) (foldl (\<lambda>acc r. insort_desc r acc) acc rows)
     = filter (\<lambda>x. created_at x = t) acc @ filter (\<lambda>x. created_at x = t) rows"
  by (induction rows arbitrary: acc) (simp_all add: sorted_insort_desc filter_insort_desc)

lemma stable_order_by:
  "filter (\<lambda>x. created_at x = t) (order_by_created_at_desc rows)
     = filter (\<lambda>x. created_at x = t) rows"
  by (simp add: order_by_created_at_desc_def filter_foldl_insort_desc)

lemma get_users_ties:
  "db_fault orc = None \<Longrightarrow>
   filter (\<lambda>x. snd (snd x) = t) (get_users orc s)
     = map user_tuple (filter (\<lambda>r. created_at r = t) (users s))"
proof -
  assume nf: "db_fault orc = None"
  have "(\<lambda>x. snd (snd x) = t) \<circ> user_tuple = (\<lambda>r. created_at r = t)"
    by (auto simp: user_tuple_def)
  then show ?thesis using nf by (simp add: get_users_def filter_map stable_order_by)
qed

section \<open>The two database paths\<close>

text \<open>
  C1. The claim is that the file the updater backs up and restores is the backing file of
  the record store. In the code the updater's path ends in \<^verbatim>\<open>data/users.db\<close> under the
  directory of the program, the store's path in \<^verbatim>\<open>.simple-test-app/users.db\<close> under the
  home directory: in every environment the two paths are different.
\<close>

theorem updater_db_path_is_not_store_path:
  "get_db_path e \<noteq> Database_get_db_path e"
proof
  assume eq: "get_db_path e = Database_get_db_path e"
  obtain x where x: "get_db_path e = x @ ''data/users.db''"
    using get_db_path_shape by blast
  obtain y where y: "Database_get_db_path e = y @ ''-app/users.db''"
    using Database_get_db_path_shape by blast
  have "x @ ''data/users.db'' = y @ ''-app/users.db''" using eq x y by simp
  then have "''data/users.db'' = ''-app/users.db''"
    by (subst (asm) append_eq_append_conv) simp_all
  then show False by simp
qed

section \<open>A failing install script\<close>

text \<open>
  C2. When the update has reached the install step (the backup succeeded, an archive
  was found, downloaded and extracted, and an install script was located) and the script
  exits with a non-zero status, \<^verbatim>\<open>update_application\<close> shows the error and returns:
  after the run of the script the only events are the error dialog and the printed error.
  \<^verbatim>\<open>restore_user_data\<close> is not called, the completion notice is not shown and the process
  does not exit. The updater itself leaves the backup alone: unless the install script
  changed it, the backup path is as the backup step left it, and the file the backup
  step wrote holds the content of the live file if there was one. That file is the
  backup path itself unless a directory is there, in which case it is the file of the
  same name inside it.
\<close>

theorem install_failure_aborts_without_restore:
  assumes "backup_user_data e (backup_io orc) w = (True, w1)"
    and "find_download_url (case assets d of None \<Rightarrow> [] | Some l \<Rightarrow> l) = Some url"
    and "url \<noteq> []"
    and "download orc = DownloadOk archive"
    and "extract_prep orc = None"
    and "tar_run orc = RunExit 0"
    and "find_install_script (walk orc) = Some script"
    and "install_run orc = RunExit rc"
    and "rc \<noteq> 0"
  shows "update_application e orc v d w =
      (Returned,
       w1\<lparr>files := install_effect orc ((files w1)(download_path v \<mapsto> File archive)),
          trace := trace w1 @
            [ShowInfo ''Update'' (Text ''Downloading update...''), Get url,
             Run [''tar'', ''-xzf'', download_path v, ''-C'', extract_dir],
             ShowInfo ''Update'' (Text ''Installing update...''),
             Run [''sudo'', ''bash'', script],
             ShowError ''Update Error''
               (TextExn ''Update failed: '' (CalledProcessError [''sudo'', ''bash'', script] rc)),
             Print (TextExn ''Update failed: '' (CalledProcessError [''sudo'', ''bash'', script] rc))]\<rparr>)
    \<and> \<not> list_ex restore_event (new_events w (snd (update_application e orc v d w)))
    \<and> update_complete \<notin> set (new_events w (snd (update_application e orc v d w)))
    \<and> (install_effect orc ((files w1)(download_path v \<mapsto> File archive)) (DB_BACKUP_PATH e)
          = ((files w1)(download_path v \<mapsto> File archive)) (DB_BACKUP_PATH e) \<longrightarrow>
        files (snd (update_application e orc v d w)) (DB_BACKUP_PATH e) = files w1 (DB_BACKUP_PATH e))
    \<and> (install_effect orc ((files w1)(download_path v \<mapsto> File archive))
            (copy2_target w (get_db_path e) (DB_BACKUP_PATH e))
          = ((files w1)(download_path v \<mapsto> File archive))
              (copy2_target w (get_db_path e) (DB_BACKUP_PATH e)) \<longrightarrow>
        (\<forall>content. files w (get_db_path e) = Some (File content) \<longrightarrow>
           files (snd (update_application e orc v d w))
             (copy2_target w (get_db_path e) (DB_BACKUP_PATH e)) = Some (File content)))
    \<and> (files w (DB_BACKUP_PATH e) \<noteq> Some Dir \<longrightarrow>
          copy2_target w (get_db_path e) (DB_BACKUP_PATH e) = DB_BACKUP_PATH e)"
proof -
  let ?wx = "w1\<lparr>files := (files w1)(download_path v \<mapsto> File archive),
           trace := trace w1 @ [ShowInfo ''Update'' (Text ''Downloading update...''), Get url,
                                Run [''tar'', ''-xzf'', download_path v, ''-C'', extract_dir]]\<rparr>"
  let ?x = "CalledProcessError [''sudo'', ''bash'', script] rc"
  let ?w' = "w1\<lparr>files := install_effect orc ((files w1)(download_path v \<mapsto> File archive)),
          trace := trace w1 @
            [ShowInfo ''Update'' (Text ''Downloading update...''), Get url,
             Run [''tar'', ''-xzf'', download_path v, ''-C'', extract_dir],
             ShowInfo ''Update'' (Text ''Installing update...''),
             Run [''sudo'', ''bash'', script],
             ShowError ''Update Error'' (TextExn ''Update failed: '' ?x),
             Print (TextExn ''Update failed: '' ?x)]\<rparr>"
  have ne: "script \<noteq> []" using assms(7) by (rule find_install_script_nonempty)
  have body: "update_body e orc v d w = install_update e orc ?wx"
    using assms(1-6) by (rule update_reaches_install)
  have "install_update e orc ?wx =
      (Inl ?x, w1\<lparr>files := install_effect orc ((files w1)(download_path v \<mapsto> File archive)),
          trace := trace w1 @
            [ShowInfo ''Update'' (Text ''Downloading update...''), Get url,
             Run [''tar'', ''-xzf'', download_path v, ''-C'', extract_dir],
             ShowInfo ''Update'' (Text ''Installing update...''),
             Run [''sudo'', ''bash'', script]]\<rparr>)"
    using assms(7-9) ne by (simp add: install_update_def run_check_def emit_def Let_def)
  then have app: "update_application e orc v d w = (Returned, ?w')"
    using body by (simp add: update_application_def emit_def)
  obtain m where m: "trace w1 = trace w @ [Print m]" "\<not> restore_event (Print m)"
    using backup_print [OF assms(1)] by blast
  have "trace ?w' = trace w @ [Print m,
             ShowInfo ''Update'' (Text ''Downloading update...''), Get url,
             Run [''tar'', ''-xzf'', download_path v, ''-C'', extract_dir],
             ShowInfo ''Update'' (Text ''Installing update...''),
             Run [''sudo'', ''bash'', script],
             ShowError ''Update Error'' (TextExn ''Update failed: '' ?x),
             Print (TextExn ''Update failed: '' ?x)]"
    using m(1) by simp
  then have ev: "new_events w ?w' = [Print m,
             ShowInfo ''Update'' (Text ''Downloading update...''), Get url,
             Run [''tar'', ''-xzf'', download_path v, ''-C'', extract_dir],
             ShowInfo ''Update'' (Text ''Installing update...''),
             Run [''sudo'', ''bash'', script],
             ShowError ''Update Error'' (TextExn ''Update failed: '' ?x),
             Print (TextExn ''Update failed: '' ?x)]"
    by (rule new_events_append)
  have no_restore: "\<not> list_ex restore_event (new_events w ?w')"
    unfolding ev using m(2) by simp
  have no_complete: "update_complete \<notin> set (new_events w ?w')"
    unfolding ev by (simp add: update_complete_def)
  have kept: "files w (get_db_path e) = Some (File content) \<Longrightarrow>
      files w1 (copy2_target w (get_db_path e) (DB_BACKUP_PATH e)) = Some (File content)"
    for content
    using backup_success(1) [OF assms(1)] by simp
  have other: "((files w1)(download_path v \<mapsto> File archive)) (DB_BACKUP_PATH e) = files w1 (DB_BACKUP_PATH e)"
    using download_path_not_backup [of v e] by simp
  have other_target: "((files w1)(download_path v \<mapsto> File archive))
        (copy2_target w (get_db_path e) (DB_BACKUP_PATH e))
      = files w1 (copy2_target w (get_db_path e) (DB_BACKUP_PATH e))"
    using download_path_not_backup_target [of v w e] by simp
  have plain: "files w (DB_BACKUP_PATH e) \<noteq> Some Dir \<longrightarrow>
          copy2_target w (get_db_path e) (DB_BACKUP_PATH e) = DB_BACKUP_PATH e"
    by (simp add: copy2_target_plain)
  show ?thesis
    unfolding app other other_target using no_restore no_complete kept plain by simp
qed

theorem install_failure_aborts_without_restore_witness:
  "find_install_script (walk (demo_update script_tree 1))
     = Some ''/tmp/simple-test-app-update/app/install.sh''
   \<and> install_run (demo_update script_tree 1) = RunExit 1
   \<and> fst (update_application demo_env (demo_update script_tree 1) ''1.0.1''
            (demo_release ''v1.0.1'') live_world) = Returned
   \<and> \<not> list_ex restore_event
         (new_events live_world
            (snd (update_application demo_env (demo_update script_tree 1) ''1.0.1''
                    (demo_release ''v1.0.1'') live_world)))
   \<and> files (snd (update_application demo_env (demo_update script_tree 1) ''1.0.1''
                   (demo_release ''v1.0.1'') live_world))
        (DB_BACKUP_PATH demo_env) = Some (File ''rows'')"
proof -
  let ?orc = "demo_update script_tree 1"
  let ?w1 = "snd (backup_user_data demo_env (backup_io ?orc) live_world)"
  note live = demo_live
  have "fst (backup_user_data demo_env (backup_io ?orc) live_world)"
    using demo_backup_succeeds by (simp add: demo_update_def)
  then have a1: "backup_user_data demo_env (backup_io ?orc) live_world = (True, ?w1)"
    by (simp add: prod_eq_iff)
  have a2: "find_download_url (case assets (demo_release ''v1.0.1'') of None \<Rightarrow> [] | Some l \<Rightarrow> l)
      = Some ''https://example.org/app.tar.gz''"
    by (simp add: demo_release_def endswith_def)
  have a3: "''https://example.org/app.tar.gz'' \<noteq> []" by simp
  have a4: "download ?orc = DownloadOk ''archive''" by (simp add: demo_update_def)
  have a5: "extract_prep ?orc = None" by (simp add: demo_update_def)
  have a6: "tar_run ?orc = RunExit 0" by (simp add: demo_update_def)
  have a7: "find_install_script (walk ?orc) = Some ''/tmp/simple-test-app-update/app/install.sh''"
    by (simp add: demo_update_def script_tree_def join_def)
  have a8: "install_run ?orc = RunExit 1" by (simp add: demo_update_def)
  have a9: "(1::int) \<noteq> 0" by simp
  have eff: "install_effect ?orc f p = f p" for f p
    by (simp add: demo_update_def)
  note run = install_failure_aborts_without_restore [OF a1 a2 a3 a4 a5 a6 a7 a8 a9, of "''1.0.1''"]
  have c1: "fst (update_application demo_env ?orc ''1.0.1'' (demo_release ''v1.0.1'') live_world)
      = Returned"
    using run [THEN conjunct1] by simp
  note c2 = run [THEN conjunct2, THEN conjunct1]
  note c3 = run [THEN conjunct2, THEN conjunct2, THEN conjunct2, THEN conjunct2,
                 THEN conjunct1, THEN mp, OF eff, THEN spec, THEN mp, OF live,
                 unfolded demo_backup_target]
  show ?thesis
    using a7 a8 c1 c2 c3 by (intro conjI)
qed

section \<open>The update offer\<close>

text \<open>
  C3. On an HTTP 200 response whose body parses, \<^verbatim>\<open>check_for_new_version\<close> removes
  every leading \<^verbatim>\<open>v\<close> of the tag and offers the update exactly when what remains is
  non-empty and, as a string, different from the current version. With the tag
  \<^verbatim>\<open>v1.0.1\<close> the offer is made for version \<^verbatim>\<open>1.0.1\<close>, and on confirmation the update
  runs with that version; with the tag \<^verbatim>\<open>v1.0.0\<close> nothing is offered.
\<close>

theorem update_offered_iff_stripped_tag_differs:
  assumes "http orc = HttpResponse 200 (Inr data)"
  shows "(list_ex is_offer (new_events w (snd (check_for_new_version e orc w)))
            \<longleftrightarrow> lstrip_v (case tag_name data of None \<Rightarrow> [] | Some t \<Rightarrow> t) \<noteq> []
               \<and> lstrip_v (case tag_name data of None \<Rightarrow> [] | Some t \<Rightarrow> t) \<noteq> CURRENT_VERSION)
       \<and> (tag_name data = Some ''v1.0.1'' \<longrightarrow>
            AskYesNo ''Update Available'' (update_prompt ''1.0.1'')
              \<in> set (new_events w (snd (check_for_new_version e orc w)))
          \<and> (confirm orc \<longrightarrow>
               check_for_new_version e orc w =
                 update_application e (update orc) ''1.0.1'' data
                   (emit (AskYesNo ''Update Available'' (update_prompt ''1.0.1''))
                      (emit (Print (Text ''New version available: 1.0.1''))
                         (emit (Get GITHUB_REPO_API) w)))))
       \<and> (tag_name data = Some ''v1.0.0'' \<longrightarrow>
            check_for_new_version e orc w =
              (Returned, emit (Print (Text ''You are running the latest version''))
                           (emit (Get GITHUB_REPO_API) w)))"
proof (intro conjI impI)
  let ?v = "lstrip_v (case tag_name data of None \<Rightarrow> [] | Some t \<Rightarrow> t)"
  show "list_ex is_offer (new_events w (snd (check_for_new_version e orc w)))
          \<longleftrightarrow> ?v \<noteq> [] \<and> ?v \<noteq> CURRENT_VERSION"
  proof (cases "?v \<noteq> [] \<and> ?v \<noteq> CURRENT_VERSION")
    case True
    then obtain evs where "new_events w (snd (check_for_new_version e orc w)) =
       [Get GITHUB_REPO_API, Print (Text (''New version available: '' @ ?v)),
        AskYesNo ''Update Available'' (update_prompt ?v)] @ evs"
      using offered_events [OF assms refl, where e = e and w = w] by blast
    then show ?thesis using True by simp
  next
    case False
    have "trace (snd (check_for_new_version e orc w)) = trace w @
       [Get GITHUB_REPO_API, Print (Text ''You are running the latest version'')]"
      using check_no_update [OF assms False, where e = e and w = w] by (simp add: trace_emit)
    then have "new_events w (snd (check_for_new_version e orc w)) =
       [Get GITHUB_REPO_API, Print (Text ''You are running the latest version'')]"
      by (rule new_events_append)
    then show ?thesis using False by simp
  qed
next
  assume t: "tag_name data = Some ''v1.0.1''"
  have v: "lstrip_v (case tag_name data of None \<Rightarrow> [] | Some t \<Rightarrow> t) = ''1.0.1''"
    using t by (simp add: lstrip_v_def)
  have ne: "''1.0.1'' \<noteq> []" "''1.0.1'' \<noteq> CURRENT_VERSION" by (simp_all add: CURRENT_VERSION_def)
  obtain evs where "new_events w (snd (check_for_new_version e orc w)) =
       [Get GITHUB_REPO_API, Print (Text (''New version available: '' @ ''1.0.1'')),
        AskYesNo ''Update Available'' (update_prompt ''1.0.1'')] @ evs"
    using offered_events [OF assms v ne, where e = e and w = w] by blast
  then show "AskYesNo ''Update Available'' (update_prompt ''1.0.1'')
              \<in> set (new_events w (snd (check_for_new_version e orc w)))"
    by simp
  show "check_for_new_version e orc w =
                 update_application e (update orc) ''1.0.1'' data
                   (emit (AskYesNo ''Update Available'' (update_prompt ''1.0.1''))
                      (emit (Print (Text ''New version available: 1.0.1''))
                         (emit (Get GITHUB_REPO_API) w)))" if "confirm orc"
    using that check_update_offered [OF assms v ne, where e = e and w = w] by (simp add: Let_def)
next
  assume t: "tag_name data = Some ''v1.0.0''"
  have "\<not> (lstrip_v (case tag_name data of None \<Rightarrow> [] | Some t \<Rightarrow> t) \<noteq> []
          \<and> lstrip_v (case tag_name data of None \<Rightarrow> [] | Some t \<Rightarrow> t) \<noteq> CURRENT_VERSION)"
    using t by (simp add: lstrip_v_def CURRENT_VERSION_def)
  then show "check_for_new_version e orc w =
              (Returned, emit (Print (Text ''You are running the latest version''))
                           (emit (Get GITHUB_REPO_API) w))"
    using check_no_update [OF assms] by blast
qed

theorem update_offered_iff_stripped_tag_differs_witness:
  "http (demo_check ''v1.0.1'' False) = HttpResponse 200 (Inr (demo_release ''v1.0.1''))
   \<and> tag_name (demo_release ''v1.0.1'') = Some ''v1.0.1''
   \<and> list_ex is_offer
       (new_events empty_world (snd (check_for_new_version demo_env (demo_check ''v1.0.1'' False) empty_world)))
   \<and> AskYesNo ''Update Available'' (update_prompt ''1.0.1'')
       \<in> set (new_events empty_world
                (snd (check_for_new_version demo_env (demo_check ''v1.0.1'' False) empty_world)))"
proof -
  have a: "http (demo_check ''v1.0.1'' False) = HttpResponse 200 (Inr (demo_release ''v1.0.1''))"
    by (simp add: demo_check_def)
  have b: "tag_name (demo_release ''v1.0.1'') = Some ''v1.0.1''"
    by (simp add: demo_release_def)
  show ?thesis
    using a b update_offered_iff_stripped_tag_differs [OF a, where e = demo_env and w = empty_world]
    by (simp add: lstrip_v_def CURRENT_VERSION_def)
qed

text \<open>
  As the claim is written, with one leading \<^verbatim>\<open>v\<close> stripped, it fails on a tag that
  starts with two: for \<^verbatim>\<open>vv1.0.0\<close> the tag without its leading \<^verbatim>\<open>v\<close> is
  \<^verbatim>\<open>v1.0.0\<close>, non-empty and different from the current version, yet the code strips
  both and offers nothing.
\<close>

theorem doubled_v_tag_gets_no_offer:
  "spec_strip_leading_v ''vv1.0.0'' \<noteq> []
   \<and> spec_strip_leading_v ''vv1.0.0'' \<noteq> CURRENT_VERSION
   \<and> \<not> list_ex is_offer
         (new_events empty_world
            (snd (check_for_new_version demo_env (demo_check ''vv1.0.0'' True) empty_world)))"
  by (simp add: spec_strip_leading_v_def CURRENT_VERSION_def check_for_new_version_def
        demo_check_def demo_release_def lstrip_v_def Let_def new_events_def emit_def
        empty_world_def)

section \<open>Registering a username twice\<close>

text \<open>
  C4. On a store without the username, and with no storage fault, the first
  \<^verbatim>\<open>register_user\<close> succeeds and appends one row, the only row with that username; the
  second returns the duplicate-username message, which is never a generic database-error
  message, and leaves the store as it was. Any failed registration leaves the store
  unchanged.
\<close>

theorem register_same_username_twice:
  assumes "uname \<notin> set (map username (users s))"
    and "db_fault o1 = None" and "db_fault o2 = None"
  shows "\<exists>row s1.
      register_user h o1 s uname p m = ((True, ''User registered successfully!''), s1)
    \<and> users s1 = users s @ [row] \<and> username row = uname
    \<and> filter (\<lambda>r. username r = uname) (users s1) = [row]
    \<and> register_user h o2 s1 uname p' m' = ((False, ''Username already exists!''), s1)
    \<and> (\<forall>msg. ''Username already exists!'' \<noteq> ''Database error: '' @ msg)
    \<and> (\<forall>o3 s3 u3 p3 m3. \<not> fst (fst (register_user h o3 s3 u3 p3 m3)) \<longrightarrow>
           snd (register_user h o3 s3 u3 p3 m3) = s3)"
proof -
  let ?row = "\<lparr>id_col = next_id s, username = uname, password_hash = hash_password h p,
               email = Some m, created_at = now o1\<rparr>"
  let ?s1 = "s\<lparr>users := users s @ [?row], next_id := Suc (next_id s)\<rparr>"
  have 1: "register_user h o1 s uname p m = ((True, ''User registered successfully!''), ?s1)"
    using assms by (simp add: register_user_def)
  have 2: "filter (\<lambda>r. username r = uname) (users ?s1) = [?row]"
    using assms(1) by (auto simp: filter_empty_conv)
  have 3: "register_user h o2 ?s1 uname p' m' = ((False, ''Username already exists!''), ?s1)"
    using assms(3) by (simp add: register_user_def)
  have 4: "\<forall>o3 s3 u3 p3 m3. \<not> fst (fst (register_user h o3 s3 u3 p3 m3)) \<longrightarrow>
           snd (register_user h o3 s3 u3 p3 m3) = s3"
    by (auto simp: register_user_def split: option.splits if_splits)
  show ?thesis
    apply (rule exI [of _ ?row], rule exI [of _ ?s1])
    using 1 2 3 4 by simp
qed

theorem register_same_username_twice_witness:
  "''ann'' \<notin> set (map username (users empty_store)) \<and> db_fault at_noon = None
   \<and> db_fault one_second_later = None
   \<and> (\<exists>row s1.
        register_user id at_noon empty_store ''ann'' ''pw'' ''a@x.org''
          = ((True, ''User registered successfully!''), s1)
      \<and> users s1 = [row] \<and> username row = ''ann''
      \<and> register_user id one_second_later s1 ''ann'' ''other'' ''b@x.org''
          = ((False, ''Username already exists!''), s1))"
proof -
  have a: "''ann'' \<notin> set (map username (users empty_store))" by (simp add: empty_store_def)
  have b: "db_fault at_noon = None" by (simp add: at_noon_def)
  have c: "db_fault one_second_later = None" by (simp add: one_second_later_def)
  have e: "users empty_store = []" by (simp add: empty_store_def)
  show ?thesis
    using a b c register_same_username_twice [OF a b c, of id "''pw''" "''a@x.org''" "''other''" "''b@x.org''"]
    unfolding e by auto
qed

section \<open>The two version constants\<close>

text \<open>
  C5. The claim is that the version constant of the main module equals the one of the
  update module. The two literals differ.
\<close>

theorem version_constants_differ:
  "APP_VERSION \<noteq> CURRENT_VERSION"
  by (simp add: APP_VERSION_def CURRENT_VERSION_def)

section \<open>Backup and restore when a file is missing\<close>

text \<open>
  C6. When nothing exists at the path of the live data file, \<^verbatim>\<open>backup_user_data\<close>
  returns true and changes no file (so it creates no backup file), provided creating the
  backup directory did not fail; when nothing exists at the backup path,
  \<^verbatim>\<open>restore_user_data\<close> returns true and changes no file. Neither function raises:
  each returns true exactly when no file-system call it makes has failed, and false
  otherwise. The copy succeeds exactly when no fault occurs, the source is a regular
  file, and the file it writes is neither the source itself nor a directory; so with a
  directory at the live path the backup returns false, and with a directory at the
  backup path the restore returns false.
\<close>

theorem missing_file_is_not_an_error:
  "(makedirs_fault io = None \<and> files w (get_db_path e) = None \<longrightarrow>
      fst (backup_user_data e io w) \<and> files (snd (backup_user_data e io w)) = files w)
   \<and> (files w (DB_BACKUP_PATH e) = None \<longrightarrow>
      fst (restore_user_data e io w) \<and> files (snd (restore_user_data e io w)) = files w)
   \<and> fst (backup_user_data e io w) =
       (makedirs_fault io = None
        \<and> (files w (get_db_path e) = None
           \<or> fst (copy2 (copy_fault io) (get_db_path e) (DB_BACKUP_PATH e) w) = None))
   \<and> fst (restore_user_data e io w) =
       (files w (DB_BACKUP_PATH e) = None
        \<or> (makedirs_fault io = None
           \<and> fst (copy2 (copy_fault io) (DB_BACKUP_PATH e) (get_db_path e) w) = None))
   \<and> (fst (copy2 fault src dst w) = None \<longleftrightarrow>
        fault = None \<and> (\<exists>content. files w src = Some (File content))
        \<and> src \<noteq> copy2_target w src dst \<and> files w (copy2_target w src dst) \<noteq> Some Dir)
   \<and> (files w (get_db_path e) = Some Dir \<longrightarrow> \<not> fst (backup_user_data e io w))
   \<and> (files w (DB_BACKUP_PATH e) = Some Dir \<longrightarrow> \<not> fst (restore_user_data e io w))"
proof -
  note b = backup_returns [of e io w]
  note r = restore_returns [of e io w]
  have b0: "makedirs_fault io = None \<and> files w (get_db_path e) = None \<longrightarrow>
      files (snd (backup_user_data e io w)) = files w"
    by (auto simp: backup_user_data_def os_path_exists_def files_emit)
  have r0: "files w (DB_BACKUP_PATH e) = None \<longrightarrow>
      files (snd (restore_user_data e io w)) = files w"
    by (auto simp: restore_user_data_def os_path_exists_def files_emit)
  have d1: "files w (get_db_path e) = Some Dir \<longrightarrow> \<not> fst (backup_user_data e io w)"
    using b copy2_succeeds_iff [of "copy_fault io" "get_db_path e" "DB_BACKUP_PATH e" w] by auto
  have d2: "files w (DB_BACKUP_PATH e) = Some Dir \<longrightarrow> \<not> fst (restore_user_data e io w)"
    using r copy2_succeeds_iff [of "copy_fault io" "DB_BACKUP_PATH e" "get_db_path e" w] by auto
  have b1: "makedirs_fault io = None \<and> files w (get_db_path e) = None \<longrightarrow>
      fst (backup_user_data e io w)" using b by simp
  have r1: "files w (DB_BACKUP_PATH e) = None \<longrightarrow> fst (restore_user_data e io w)"
    using r by simp
  show ?thesis
    using b r b0 r0 b1 r1 d1 d2 copy2_succeeds_iff [of fault src dst w] by blast
qed

theorem missing_file_is_not_an_error_witness:
  "makedirs_fault no_faults = None \<and> files empty_world (get_db_path demo_env) = None
   \<and> files empty_world (DB_BACKUP_PATH demo_env) = None
   \<and> fst (backup_user_data demo_env no_faults empty_world)
   \<and> files (snd (backup_user_data demo_env no_faults empty_world)) = files empty_world
   \<and> fst (restore_user_data demo_env no_faults empty_world)
   \<and> files (snd (restore_user_data demo_env no_faults empty_world)) = files empty_world
   \<and> files dir_world (get_db_path demo_env) = Some Dir
   \<and> \<not> fst (backup_user_data demo_env no_faults dir_world)
   \<and> files dir_world (DB_BACKUP_PATH demo_env) = Some Dir
   \<and> \<not> fst (restore_user_data demo_env no_faults dir_world)"
proof -
  have a: "makedirs_fault no_faults = None" by (simp add: no_faults_def)
  have d: "files dir_world (get_db_path demo_env) = Some Dir"
    by (simp add: dir_world_def demo_get_db_path)
  have d': "files dir_world (DB_BACKUP_PATH demo_env) = Some Dir"
    by (simp add: dir_world_def demo_DB_BACKUP_PATH)
  note u = missing_file_is_not_an_error [of no_faults dir_world demo_env]
  note u1 = u [THEN conjunct2, THEN conjunct2, THEN conjunct2, THEN conjunct2, THEN conjunct2,
               THEN conjunct1, THEN mp, OF d]
  note u2 = u [THEN conjunct2, THEN conjunct2, THEN conjunct2, THEN conjunct2, THEN conjunct2,
               THEN conjunct2, THEN mp, OF d']
  have b: "files empty_world (get_db_path demo_env) = None" by (simp add: empty_world_def)
  have c: "files empty_world (DB_BACKUP_PATH demo_env) = None" by (simp add: empty_world_def)
  note t = missing_file_is_not_an_error [of no_faults empty_world demo_env]
  note t1 = t [THEN conjunct1, THEN mp, OF conjI [OF a b]]
  note t2 = t [THEN conjunct2, THEN conjunct1, THEN mp, OF c]
  show ?thesis using a b c d d' t1 t2 u1 u2 by (intro conjI) simp_all
qed

section \<open>Backup followed by restore\<close>

text \<open>
  C7. Whatever the content of the live data file, a successful \<^verbatim>\<open>backup_user_data\<close>
  followed by \<^verbatim>\<open>restore_user_data\<close>, with nothing changed in between and the copy
  of the restore not failing, leaves the live file with the content it had before.
\<close>

theorem backup_then_restore_roundtrip:
  assumes "files w (get_db_path e) = Some (File content)"
    and "fst (backup_user_data e io1 w)"
    and "copy_fault io2 = None"
  shows "files (snd (restore_user_data e io2 (snd (backup_user_data e io1 w)))) (get_db_path e)
           = Some (File content)"
proof -
  let ?L = "get_db_path e" and ?B = "DB_BACKUP_PATH e"
  let ?T = "copy2_target w ?L ?B"
  let ?w1 = "snd (backup_user_data e io1 w)"
  have bk: "backup_user_data e io1 w = (True, ?w1)" using assms(2) by (simp add: prod_eq_iff)
  have f1: "files ?w1 = (files w)(?T \<mapsto> File content)"
    using backup_success(1) [OF bk assms(1)] .
  have "fst (copy2 (copy_fault io1) ?L ?B w) = None"
    using assms(1,2) backup_returns [of e io1 w] by simp
  then have LT: "?L \<noteq> ?T" using copy2_succeeds_iff by blast
  have l1: "files ?w1 ?L = Some (File content)" using f1 LT assms(1) by simp
  have T': "copy2_target ?w1 ?B ?L = ?L" using l1 by (simp add: copy2_target_plain)
  have backup_content: "c = content" if "files ?w1 ?B = Some (File c)" for c
  proof (cases "?T = ?B")
    case True
    then show ?thesis using that f1 by simp
  next
    case False
    then have "files w ?B = Some Dir"
      by (auto simp: copy2_target_def os_path_isdir_def split: if_splits)
    then show ?thesis using that f1 False by simp
  qed
  obtain r2 wc2 where c2: "copy2 (copy_fault io2) ?B ?L ?w1 = (r2, wc2)" by force
  have "files wc2 ?L = Some (File content)"
  proof (cases r2)
    case None
    obtain c where c: "files ?w1 ?B = Some (File c)"
      and wc2: "wc2 = ?w1\<lparr>files := (files ?w1)(copy2_target ?w1 ?B ?L \<mapsto> File c)\<rparr>"
      using copy2_success [of "copy_fault io2" ?B ?L ?w1 wc2] c2 None by auto
    show ?thesis using wc2 T' backup_content [OF c] by simp
  next
    case (Some x)
    then have "wc2 = ?w1" using c2 assms(3) copy2_unfaulted_failure by simp
    then show ?thesis using l1 by simp
  qed
  then show ?thesis using l1 c2 by (simp add: restore_files)
qed

theorem backup_then_restore_roundtrip_witness:
  "files live_world (get_db_path demo_env) = Some (File ''rows'')
   \<and> fst (backup_user_data demo_env no_faults live_world)
   \<and> copy_fault no_faults = None
   \<and> files (snd (restore_user_data demo_env no_faults
                   (snd (backup_user_data demo_env no_faults live_world))))
        (get_db_path demo_env) = Some (File ''rows'')"
proof -
  have a: "files live_world (get_db_path demo_env) = Some (File ''rows'')"
    by (simp add: live_world_def demo_get_db_path)
  have "fst (copy2 None (get_db_path demo_env) (DB_BACKUP_PATH demo_env) live_world) = None"
    unfolding copy2_succeeds_iff
    by (simp add: demo_get_db_path demo_DB_BACKUP_PATH copy2_target_def os_path_isdir_def
          live_world_def)
  then have b: "fst (backup_user_data demo_env no_faults live_world)"
    by (simp add: backup_returns no_faults_def)
  have c: "copy_fault no_faults = None" by (simp add: no_faults_def)
  show ?thesis using a b c backup_then_restore_roundtrip [OF a b c] by (intro conjI)
qed

section \<open>A missing install script\<close>

text \<open>
  C8. When the update has reached the search for the install script: if no directory
  of the extraction tree lists a file named \<^verbatim>\<open>install.sh\<close>, nothing is installed and no
  error is shown; the only subprocess run is \<^verbatim>\<open>tar\<close>, \<^verbatim>\<open>restore_user_data\<close> is called,
  the completion notice is shown and the process exits with status 0. If some directory
  lists one, the script of the first such directory in the order of the walk is the one
  run, and the only one.
\<close>

theorem missing_install_script_is_skipped:
  assumes "backup_user_data e (backup_io orc) w = (True, w1)"
    and "find_download_url (case assets d of None \<Rightarrow> [] | Some l \<Rightarrow> l) = Some url"
    and "url \<noteq> []"
    and "download orc = DownloadOk archive"
    and "extract_prep orc = None"
    and "tar_run orc = RunExit 0"
  shows "(find_install_script (walk orc) = None
            \<longleftrightarrow> (\<forall>t\<in>set (walk orc). ''install.sh'' \<notin> set (snd (snd t))))
    \<and> (find_install_script (walk orc) = None \<longrightarrow>
          update_application e orc v d w =
            (SystemExit 0,
             emit update_complete
               (snd (restore_user_data e (restore_io orc)
                  (emit (Sleep 1)
                     (w1\<lparr>files := (files w1)(download_path v \<mapsto> File archive),
                         trace := trace w1 @
                           [ShowInfo ''Update'' (Text ''Downloading update...''), Get url,
                            Run [''tar'', ''-xzf'', download_path v, ''-C'', extract_dir]]\<rparr>)))))
        \<and> runs (new_events w (snd (update_application e orc v d w)))
            = [ [''tar'', ''-xzf'', download_path v, ''-C'', extract_dir]]
        \<and> list_ex restore_event (new_events w (snd (update_application e orc v d w)))
        \<and> update_complete \<in> set (new_events w (snd (update_application e orc v d w))))
    \<and> (\<forall>pre root dirs fs post.
          walk orc = pre @ (root, dirs, fs) # post
          \<and> (\<forall>t\<in>set pre. ''install.sh'' \<notin> set (snd (snd t)))
          \<and> ''install.sh'' \<in> set fs \<longrightarrow>
          find_install_script (walk orc) = Some (join root ''install.sh'')
        \<and> runs (new_events w (snd (update_application e orc v d w)))
            = [ [''tar'', ''-xzf'', download_path v, ''-C'', extract_dir],
               [''sudo'', ''bash'', join root ''install.sh'']])"
proof -
  let ?wx = "w1\<lparr>files := (files w1)(download_path v \<mapsto> File archive),
           trace := trace w1 @ [ShowInfo ''Update'' (Text ''Downloading update...''), Get url,
                                Run [''tar'', ''-xzf'', download_path v, ''-C'', extract_dir]]\<rparr>"
  have body: "update_body e orc v d w = install_update e orc ?wx"
    using assms by (rule update_reaches_install)
  obtain m0 where m0: "trace w1 = trace w @ [Print m0]"
    using backup_print [OF assms(1)] by blast
  have twx: "trace ?wx = trace w @ [Print m0, ShowInfo ''Update'' (Text ''Downloading update...''),
        Get url, Run [''tar'', ''-xzf'', download_path v, ''-C'', extract_dir]]"
    using m0 by simp
  have none: "update_application e orc v d w =
            (SystemExit 0,
             emit update_complete (snd (restore_user_data e (restore_io orc) (emit (Sleep 1) ?wx))))
        \<and> runs (new_events w (snd (update_application e orc v d w)))
            = [ [''tar'', ''-xzf'', download_path v, ''-C'', extract_dir]]
        \<and> list_ex restore_event (new_events w (snd (update_application e orc v d w)))
        \<and> update_complete \<in> set (new_events w (snd (update_application e orc v d w)))"
    if n: "find_install_script (walk orc) = None"
  proof -
    have iu: "install_update e orc ?wx = finish_update e orc ?wx"
      using n by (simp add: install_update_def)
    obtain m where fin: "finish_update e orc ?wx =
         (Inr (SystemExit 0), emit update_complete (snd (restore_user_data e (restore_io orc) (emit (Sleep 1) ?wx))))"
      and tr: "trace (snd (finish_update e orc ?wx)) = trace ?wx @ [Sleep 1, Print m, update_complete]"
      and re: "restore_event (Print m)"
      using finish_update_result [of e orc ?wx] by blast
    have app: "update_application e orc v d w =
            (SystemExit 0,
             emit update_complete (snd (restore_user_data e (restore_io orc) (emit (Sleep 1) ?wx))))"
      using body iu fin by (simp add: update_application_def)
    have "snd (update_application e orc v d w) = snd (finish_update e orc ?wx)"
      using app fin by simp
    then have "trace (snd (update_application e orc v d w)) = trace w @
        [Print m0, ShowInfo ''Update'' (Text ''Downloading update...''),
         Get url, Run [''tar'', ''-xzf'', download_path v, ''-C'', extract_dir],
         Sleep 1, Print m, update_complete]"
      using tr twx by simp
    then have ev: "new_events w (snd (update_application e orc v d w)) =
        [Print m0, ShowInfo ''Update'' (Text ''Downloading update...''),
         Get url, Run [''tar'', ''-xzf'', download_path v, ''-C'', extract_dir],
         Sleep 1, Print m, update_complete]"
      by (rule new_events_append)
    show ?thesis unfolding ev using app re by (simp add: update_complete_def)
  qed
  have some: "find_install_script (walk orc) = Some (join root ''install.sh'')
        \<and> runs (new_events w (snd (update_application e orc v d w)))
            = [ [''tar'', ''-xzf'', download_path v, ''-C'', extract_dir],
               [''sudo'', ''bash'', join root ''install.sh'']]"
    if wk: "walk orc = pre @ (root, dirs, fs) # post"
      and pre: "\<forall>t\<in>set pre. ''install.sh'' \<notin> set (snd (snd t))"
      and fs: "''install.sh'' \<in> set fs"
    for pre root dirs fs post
  proof -
    have scr: "find_install_script (walk orc) = Some (join root ''install.sh'')"
      unfolding wk using pre fs by (rule find_install_script_first)
    obtain rest where tr: "trace (snd (update_application e orc v d w)) =
            trace ?wx @ [ShowInfo ''Update'' (Text ''Installing update...''),
                        Run [''sudo'', ''bash'', join root ''install.sh'']] @ rest"
      and rest: "runs rest = []"
      using update_runs_install_script [OF body scr] by blast
    have "trace (snd (update_application e orc v d w)) = trace w @
        ([Print m0, ShowInfo ''Update'' (Text ''Downloading update...''),
         Get url, Run [''tar'', ''-xzf'', download_path v, ''-C'', extract_dir],
         ShowInfo ''Update'' (Text ''Installing update...''),
         Run [''sudo'', ''bash'', join root ''install.sh'']] @ rest)"
      using tr twx by simp
    then have ev: "new_events w (snd (update_application e orc v d w)) =
        [Print m0, ShowInfo ''Update'' (Text ''Downloading update...''),
         Get url, Run [''tar'', ''-xzf'', download_path v, ''-C'', extract_dir],
         ShowInfo ''Update'' (Text ''Installing update...''),
         Run [''sudo'', ''bash'', join root ''install.sh'']] @ rest"
      by (rule new_events_append)
    show ?thesis unfolding ev using scr rest by (simp add: runs_append)
  qed
  show ?thesis
    using none some find_install_script_none [of "walk orc"] by blast
qed

theorem missing_install_script_is_skipped_witness:
  "find_install_script (walk (demo_update plain_tree 0)) = None
   \<and> fst (update_application demo_env (demo_update plain_tree 0) ''1.0.1''
            (demo_release ''v1.0.1'') live_world) = SystemExit 0
   \<and> runs (new_events live_world
             (snd (update_application demo_env (demo_update plain_tree 0) ''1.0.1''
                     (demo_release ''v1.0.1'') live_world)))
       = [ [''tar'', ''-xzf'', download_path ''1.0.1'', ''-C'', extract_dir]]
   \<and> list_ex restore_event
        (new_events live_world
           (snd (update_application demo_env (demo_update plain_tree 0) ''1.0.1''
                   (demo_release ''v1.0.1'') live_world)))
   \<and> runs (new_events live_world
             (snd (update_application demo_env (demo_update script_tree 0) ''1.0.1''
                     (demo_release ''v1.0.1'') live_world)))
       = [ [''tar'', ''-xzf'', download_path ''1.0.1'', ''-C'', extract_dir],
          [''sudo'', ''bash'', ''/tmp/simple-test-app-update/app/install.sh'']]"
proof -
  note r = demo_update_reaches_install
  note plain = missing_install_script_is_skipped
    [OF r(1) [of plain_tree 0] r(2) r(3) r(4) [of plain_tree 0] r(5) [of plain_tree 0] r(6) [of plain_tree 0],
     where v = "''1.0.1''"]
  note script = missing_install_script_is_skipped
    [OF r(1) [of script_tree 0] r(2) r(3) r(4) [of script_tree 0] r(5) [of script_tree 0] r(6) [of script_tree 0],
     where v = "''1.0.1''"]
  have n: "find_install_script (walk (demo_update plain_tree 0)) = None"
    by (simp add: demo_update_def plain_tree_def)
  note p = plain [THEN conjunct2, THEN conjunct1, THEN mp, OF n]
  have c1: "fst (update_application demo_env (demo_update plain_tree 0) ''1.0.1''
            (demo_release ''v1.0.1'') live_world) = SystemExit 0"
    using p [THEN conjunct1] by simp
  note c2 = p [THEN conjunct2, THEN conjunct1]
  note c3 = p [THEN conjunct2, THEN conjunct2, THEN conjunct1]
  have h: "walk (demo_update script_tree 0) =
       [(''/tmp/simple-test-app-update'', [''app''], [''README''])]
       @ (''/tmp/simple-test-app-update/app'', [''old''], [''main.py'', ''install.sh''])
       # [(''/tmp/simple-test-app-update/app/old'', [], [''install.sh''])]
     \<and> (\<forall>t\<in>set [(''/tmp/simple-test-app-update'', [''app''], [''README''])].
           ''install.sh'' \<notin> set (snd (snd t)))
     \<and> ''install.sh'' \<in> set [''main.py'', ''install.sh'']"
    by (simp add: demo_update_def script_tree_def)
  note q = script [THEN conjunct2, THEN conjunct2, THEN spec, THEN spec, THEN spec, THEN spec,
                   THEN spec, THEN mp, OF h, THEN conjunct2]
  have j: "join ''/tmp/simple-test-app-update/app'' ''install.sh''
      = ''/tmp/simple-test-app-update/app/install.sh''"
    by (simp add: join_def)
  note c4 = q [unfolded j]
  show ?thesis
    using n c1 c2 c3 c4 by (intro conjI)
qed

section \<open>The order of the listing\<close>

text \<open>
  C9. \<^verbatim>\<open>get_users\<close> returns the stored users as triples of username, email and
  creation time, in descending order of creation time, and users with the same creation
  time in the order of their insertion; on an empty store it returns the empty list.
  After registering U1 and then U2 with a strictly later creation time, U2 comes before
  U1 in the listing, and on a store that was empty the listing is exactly U2, U1. When
  both are registered at the same creation time they are listed after the earlier users
  of that time, U1 before U2, and on a store that was empty the listing is exactly U1, U2.
\<close>

theorem get_users_newest_first:
  "(db_fault orc = None \<longrightarrow>
      mset (get_users orc s) = image_mset user_tuple (mset (users s))
    \<and> sorted_wrt (\<lambda>a b. snd (snd b) \<le> snd (snd a)) (get_users orc s)
    \<and> (\<forall>t. filter (\<lambda>x. snd (snd x) = t) (get_users orc s)
              = map user_tuple (filter (\<lambda>r. created_at r = t) (users s))))
   \<and> (users s = [] \<longrightarrow> get_users orc s = [])
   \<and> (db_fault o1 = None \<and> db_fault o2 = None \<and> db_fault orc = None
        \<and> u1 \<notin> set (map username (users s)) \<and> u2 \<notin> set (map username (users s))
        \<and> u1 \<noteq> u2 \<and> now o1 < now o2 \<longrightarrow>
        (\<exists>pre mid post.
           get_users orc (snd (register_user h o2 (snd (register_user h o1 s u1 p1 m1)) u2 p2 m2))
             = pre @ (u2, m2, now o2) # mid @ (u1, m1, now o1) # post)
      \<and> (users s = [] \<longrightarrow>
           get_users orc (snd (register_user h o2 (snd (register_user h o1 s u1 p1 m1)) u2 p2 m2))
             = [(u2, m2, now o2), (u1, m1, now o1)]))
   \<and> (db_fault o1 = None \<and> db_fault o2 = None \<and> db_fault orc = None
        \<and> u1 \<notin> set (map username (users s)) \<and> u2 \<notin> set (map username (users s))
        \<and> u1 \<noteq> u2 \<and> now o1 = now o2 \<longrightarrow>
        filter (\<lambda>x. snd (snd x) = now o1)
          (get_users orc (snd (register_user h o2 (snd (register_user h o1 s u1 p1 m1)) u2 p2 m2)))
          = map user_tuple (filter (\<lambda>r. created_at r = now o1) (users s))
              @ [(u1, m1, now o1), (u2, m2, now o2)]
      \<and> (users s = [] \<longrightarrow>
           get_users orc (snd (register_user h o2 (snd (register_user h o1 s u1 p1 m1)) u2 p2 m2))
             = [(u1, m1, now o1), (u2, m2, now o2)]))"
proof -
  let ?r1 = "\<lparr>id_col = next_id s, username = u1, password_hash = hash_password h p1,
               email = Some m1, created_at = now o1\<rparr>"
  let ?s1 = "snd (register_user h o1 s u1 p1 m1)"
  let ?r2 = "\<lparr>id_col = next_id ?s1, username = u2, password_hash = hash_password h p2,
               email = Some m2, created_at = now o2\<rparr>"
  let ?s2 = "snd (register_user h o2 ?s1 u2 p2 m2)"
  let ?res = "order_by_created_at_desc (users ?s2)"
  have t1: "user_tuple ?r1 = (u1, m1, now o1)" and t2: "user_tuple ?r2 = (u2, m2, now o2)"
    by (simp_all add: user_tuple_def)
  have inserted: "users ?s2 = users s @ [?r1, ?r2]"
    if "db_fault o1 = None" "db_fault o2 = None" "u1 \<notin> set (map username (users s))"
      "u2 \<notin> set (map username (users s))" "u1 \<noteq> u2"
  proof -
    have s1: "users ?s1 = users s @ [?r1]" using that by (simp add: register_user_fresh)
    have "u2 \<notin> set (map username (users ?s1))" using that s1 by auto
    then show ?thesis
      using that s1 register_user_fresh [of o2 u2 ?s1 h p2 m2] by simp
  qed
  have listing: "mset (get_users orc s) = image_mset user_tuple (mset (users s))
    \<and> sorted_wrt (\<lambda>a b. snd (snd b) \<le> snd (snd a)) (get_users orc s)
    \<and> (\<forall>t. filter (\<lambda>x. snd (snd x) = t) (get_users orc s)
              = map user_tuple (filter (\<lambda>r. created_at r = t) (users s)))"
    if nf: "db_fault orc = None"
  proof (intro conjI allI)
    show "mset (get_users orc s) = image_mset user_tuple (mset (users s))"
      using nf mset_order_by [of "users s"] by (simp add: get_users_def)
    have "snd (snd (user_tuple r)) = created_at r" for r by (simp add: user_tuple_def)
    then show "sorted_wrt (\<lambda>a b. snd (snd b) \<le> snd (snd a)) (get_users orc s)"
      using nf sorted_order_by [of "users s"] by (simp add: get_users_def sorted_wrt_map)
    show "filter (\<lambda>x. snd (snd x) = t) (get_users orc s)
              = map user_tuple (filter (\<lambda>r. created_at r = t) (users s))" for t
      using nf by (rule get_users_ties)
  qed
  have empty: "get_users orc s = []" if "users s = []"
    using that by (simp add: get_users_def order_by_created_at_desc_def split: option.splits)
  have later: "(\<exists>pre mid post. get_users orc ?s2
             = pre @ (u2, m2, now o2) # mid @ (u1, m1, now o1) # post)
      \<and> (users s = [] \<longrightarrow> get_users orc ?s2 = [(u2, m2, now o2), (u1, m1, now o1)])"
    if hyp: "db_fault o1 = None \<and> db_fault o2 = None \<and> db_fault orc = None
        \<and> u1 \<notin> set (map username (users s)) \<and> u2 \<notin> set (map username (users s))
        \<and> u1 \<noteq> u2 \<and> now o1 < now o2"
  proof -
    have s2: "users ?s2 = users s @ [?r1, ?r2]" using hyp inserted by blast
    have in1: "?r1 \<in> set ?res" and in2: "?r2 \<in> set ?res" by (simp_all add: set_order_by s2)
    have lt: "created_at ?r1 < created_at ?r2" using hyp by simp
    obtain pre mid post where split: "?res = pre @ ?r2 # mid @ ?r1 # post"
      using later_row_precedes [OF sorted_order_by in2 in1 lt] by blast
    have gu: "get_users orc ?s2 =
        map user_tuple pre @ (u2, m2, now o2) # map user_tuple mid @ (u1, m1, now o1) # map user_tuple post"
      using hyp split t1 t2 by (simp add: get_users_def)
    have "get_users orc ?s2 = [(u2, m2, now o2), (u1, m1, now o1)]" if e: "users s = []"
    proof -
      have "length ?res = 2" using s2 e by (simp add: length_order_by)
      then have "pre = [] \<and> mid = [] \<and> post = []" using split by auto
      then show ?thesis using gu by simp
    qed
    then show ?thesis using gu by blast
  qed
  have tie: "filter (\<lambda>x. snd (snd x) = now o1) (get_users orc ?s2)
          = map user_tuple (filter (\<lambda>r. created_at r = now o1) (users s))
              @ [(u1, m1, now o1), (u2, m2, now o2)]
      \<and> (users s = [] \<longrightarrow> get_users orc ?s2 = [(u1, m1, now o1), (u2, m2, now o2)])"
    if hyp: "db_fault o1 = None \<and> db_fault o2 = None \<and> db_fault orc = None
        \<and> u1 \<notin> set (map username (users s)) \<and> u2 \<notin> set (map username (users s))
        \<and> u1 \<noteq> u2 \<and> now o1 = now o2"
  proof -
    have s2: "users ?s2 = users s @ [?r1, ?r2]" using hyp inserted by blast
    have nf: "db_fault orc = None" using hyp by simp
    have same: "now o2 = now o1" using hyp by simp
    have f: "filter (\<lambda>x. snd (snd x) = now o1) (get_users orc ?s2)
          = map user_tuple (filter (\<lambda>r. created_at r = now o1) (users s))
              @ [(u1, m1, now o1), (u2, m2, now o2)]"
      unfolding get_users_ties [OF nf] s2 using t1 t2 same by simp
    have "get_users orc ?s2 = [(u1, m1, now o1), (u2, m2, now o2)]" if e: "users s = []"
    proof -
      have "\<forall>x\<in>set (get_users orc ?s2). snd (snd x) = now o1"
        using nf s2 e same by (auto simp: get_users_def set_order_by user_tuple_def)
      then have "filter (\<lambda>x. snd (snd x) = now o1) (get_users orc ?s2) = get_users orc ?s2"
        by (simp add: filter_id_conv)
      then show ?thesis using f e by simp
    qed
    then show ?thesis using f by blast
  qed
  show ?thesis using listing empty later tie by blast
qed

theorem get_users_newest_first_witness:
  "db_fault at_noon = None \<and> db_fault one_second_later = None
   \<and> ''U1'' \<notin> set (map username (users empty_store))
   \<and> ''U2'' \<notin> set (map username (users empty_store))
   \<and> ''U1'' \<noteq> ''U2'' \<and> now at_noon < now one_second_later
   \<and> users empty_store = [] \<and> get_users at_noon empty_store = []
   \<and> get_users at_noon
        (snd (register_user id one_second_later
               (snd (register_user id at_noon empty_store ''U1'' ''pw'' ''a@x.org''))
               ''U2'' ''pw'' ''b@x.org''))
      = [(''U2'', ''b@x.org'', ''2024-01-01 12:00:01''), (''U1'', ''a@x.org'', ''2024-01-01 12:00:00'')]
   \<and> get_users at_noon
        (snd (register_user id at_noon
               (snd (register_user id at_noon empty_store ''U1'' ''pw'' ''a@x.org''))
               ''U2'' ''pw'' ''b@x.org''))
      = [(''U1'', ''a@x.org'', ''2024-01-01 12:00:00''), (''U2'', ''b@x.org'', ''2024-01-01 12:00:00'')]"
proof -
  have a: "db_fault at_noon = None" "db_fault one_second_later = None"
    by (simp_all add: at_noon_def one_second_later_def)
  have b: "''U1'' \<notin> set (map username (users empty_store))"
    "''U2'' \<notin> set (map username (users empty_store))" "users empty_store = []"
    by (simp_all add: empty_store_def)
  have c: "''U1'' \<noteq> ''U2''" by simp
  have d: "now at_noon < now one_second_later"
    by (simp add: at_noon_def one_second_later_def less_char_def)
  have n: "now at_noon = ''2024-01-01 12:00:00''" "now one_second_later = ''2024-01-01 12:00:01''"
    by (simp_all add: at_noon_def one_second_later_def)
  note later = get_users_newest_first
    [of at_noon empty_store at_noon one_second_later "''U1''" "''U2''"
        id "''pw''" "''a@x.org''" "''pw''" "''b@x.org''"]
  note tie = get_users_newest_first
    [of at_noon empty_store at_noon at_noon "''U1''" "''U2''"
        id "''pw''" "''a@x.org''" "''pw''" "''b@x.org''"]
  have e: "get_users at_noon empty_store = []"
    using later b(3) by blast
  have l: "get_users at_noon
        (snd (register_user id one_second_later
               (snd (register_user id at_noon empty_store ''U1'' ''pw'' ''a@x.org''))
               ''U2'' ''pw'' ''b@x.org''))
      = [(''U2'', ''b@x.org'', now one_second_later), (''U1'', ''a@x.org'', now at_noon)]"
    using later a b c d by blast
  have t: "get_users at_noon
        (snd (register_user id at_noon
               (snd (register_user id at_noon empty_store ''U1'' ''pw'' ''a@x.org''))
               ''U2'' ''pw'' ''b@x.org''))
      = [(''U1'', ''a@x.org'', now at_noon), (''U2'', ''b@x.org'', now at_noon)]"
    using tie a b c by blast
  show ?thesis
    using a b c d e l [unfolded n] t [unfolded n] by (intro conjI)
qed


text \<open>
  As the claim is written, without the condition on the creation times, it fails: the
  clock of CURRENT_TIMESTAMP has a resolution of one second, and two users registered
  within the same second are listed in the order of their registration.
\<close>

theorem same_second_inserts_listed_oldest_first:
  "get_users at_noon
     (snd (register_user id at_noon
            (snd (register_user id at_noon empty_store ''U1'' ''pw'' ''a@x.org''))
            ''U2'' ''pw'' ''b@x.org''))
   = [(''U1'', ''a@x.org'', ''2024-01-01 12:00:00''), (''U2'', ''b@x.org'', ''2024-01-01 12:00:00'')]"
  by (simp add: get_users_def register_user_def at_noon_def empty_store_def
        order_by_created_at_desc_def user_tuple_def hash_password_def)

section \<open>The email field of the listing\<close>

text \<open>
  C10. Every triple \<^verbatim>\<open>get_users\<close> returns comes from a stored row and carries a string in
  the email position, the empty string where the column is NULL; every stored row whose
  email is NULL or empty is listed with the empty string.
\<close>

theorem get_users_email_is_a_string:
  "(db_fault orc = None \<longrightarrow>
      (\<forall>r\<in>set (users s). email r = None \<or> email r = Some [] \<longrightarrow>
         (username r, [], created_at r) \<in> set (get_users orc s)))
   \<and> (\<forall>t\<in>set (get_users orc s). \<exists>r\<in>set (users s).
         t = (username r, (case email r of None \<Rightarrow> [] | Some m \<Rightarrow> m), created_at r))"
proof (intro conjI impI ballI)
  fix r
  assume nf: "db_fault orc = None" and r: "r \<in> set (users s)"
    and em: "email r = None \<or> email r = Some []"
  have "user_tuple r = (username r, [], created_at r)"
    using em by (auto simp: user_tuple_email)
  moreover have "user_tuple r \<in> set (get_users orc s)"
    using r nf by (simp add: get_users_def set_order_by)
  ultimately show "(username r, [], created_at r) \<in> set (get_users orc s)" by simp
next
  fix t
  assume "t \<in> set (get_users orc s)"
  then obtain r where "r \<in> set (users s)" and "t = user_tuple r"
    by (auto simp: get_users_def set_order_by split: option.splits)
  then show "\<exists>r\<in>set (users s).
      t = (username r, (case email r of None \<Rightarrow> [] | Some m \<Rightarrow> m), created_at r)"
    using user_tuple_email by blast
qed

theorem get_users_email_is_a_string_witness:
  "db_fault at_noon = None
   \<and> get_users at_noon null_email_store = [(''ann'', [], ''2024-01-01 12:00:00'')]"
proof -
  have nf: "db_fault at_noon = None" by (simp add: at_noon_def)
  let ?r = "\<lparr>id_col = 1, username = ''ann'', password_hash = ''h'', email = None,
             created_at = ''2024-01-01 12:00:00''\<rparr>"
  have r: "?r \<in> set (users null_email_store)" by (simp add: null_email_store_def)
  have "(username ?r, [], created_at ?r) \<in> set (get_users at_noon null_email_store)"
    using get_users_email_is_a_string [of at_noon null_email_store] nf r by auto
  moreover have "length (get_users at_noon null_email_store) = 1"
    by (simp add: get_users_def at_noon_def null_email_store_def order_by_created_at_desc_def)
  ultimately show ?thesis using nf
    by (cases "get_users at_noon null_email_store") auto
qed

end
